theory Spec2Isabelle
  imports Complex_Main
begin

section \<open>Numbers and input values\<close>

text \<open>
  The program is JavaScript; its numbers are IEEE doubles. This development reads every
  number as a real: arithmetic is exact, and nothing rounds or overflows. An input field
  that the source tests with \<^verbatim>\<open>Number.isFinite\<close> is a \<open>jsval\<close>, so that
  the absent and the non-finite cases of that test are branches of the model
  (\<open>Undefined\<close> also stands for a value that is not a number). A coordinate, which
  the source reads as \<^verbatim>\<open>p.x || 0\<close>, is a finite number or absent.
  The source divides by the room's width and height; where one of them is zero
  JavaScript yields an infinity or NaN, which a real cannot follow, so a theorem whose
  statement rests on the value of such a quotient assumes that both are nonzero.
  \<^verbatim>\<open>Array.isArray(v) ? v : []\<close> on the lists of the input is a list here: a value
  that is not an array is the empty list.
\<close>

datatype jsval = Undefined | NaN | PosInfinity | NegInfinity | Num real

fun isFinite :: "jsval \<Rightarrow> bool" where
  "isFinite (Num r) = True"
| "isFinite _ = False"

fun num :: "jsval \<Rightarrow> real" where
  "num (Num r) = r"
| "num _ = 0"

text \<open>\<^verbatim>\<open>v || 0\<close> on a coordinate: an absent value and zero are falsy.\<close>

fun orZero :: "real option \<Rightarrow> real" where
  "orZero None = 0"
| "orZero (Some v) = (if v = 0 then 0 else v)"

definition clamp :: "'a::linorder \<Rightarrow> 'a \<Rightarrow> 'a \<Rightarrow> 'a" where
  "clamp v a b = max a (min b v)"

definition lerp :: "real \<Rightarrow> real \<Rightarrow> real \<Rightarrow> real" where
  "lerp a b t = a + (b - a) * t"

section \<open>Fields\<close>

type_synonym field = "real list list"

definition make2D :: "nat \<Rightarrow> nat \<Rightarrow> 'a \<Rightarrow> 'a list list" where
  "make2D r c fill = replicate r (replicate c fill)"

text \<open>
  A pair of loops \<^verbatim>\<open>for y < r, for x < c\<close> that gives every cell \<open>(y, x)\<close> one
  value: the table of those values, row by row.
\<close>

definition tabulate2 :: "nat \<Rightarrow> nat \<Rightarrow> (nat \<Rightarrow> nat \<Rightarrow> 'a) \<Rightarrow> 'a list list" where
  "tabulate2 r c g = map (\<lambda>y. map (\<lambda>x. g y x) [0..<c]) [0..<r]"

text \<open>Bilinear sample from a scalar field (\<^verbatim>\<open>sampleScalar\<close>).\<close>

definition sampleScalar :: "field \<Rightarrow> real \<Rightarrow> real \<Rightarrow> real" where
  "sampleScalar fld x y =
     (let nrows = length fld;
          ncols = length (fld ! 0);
          xc = clamp x 0 (real ncols - 1);
          yc = clamp y 0 (real nrows - 1);
          x0 = \<lfloor>xc\<rfloor>;
          y0 = \<lfloor>yc\<rfloor>;
          x1 = clamp (x0 + 1) 0 (int ncols - 1);
          y1 = clamp (y0 + 1) 0 (int nrows - 1);
          tx = xc - real_of_int x0;
          ty = yc - real_of_int y0;
          v00 = fld ! nat y0 ! nat x0;
          v10 = fld ! nat y0 ! nat x1;
          v01 = fld ! nat y1 ! nat x0;
          v11 = fld ! nat y1 ! nat x1;
          a = lerp v00 v10 tx;
          b = lerp v01 v11 tx
      in lerp a b ty)"

section \<open>The simulation's data\<close>

record fan =
  fan_x :: "real option"
  fan_y :: "real option"
  fan_strength :: jsval

record window =
  win_x :: "real option"
  win_y :: "real option"
  win_w :: jsval
  win_open :: jsval

record occupant =
  occ_x :: "real option"
  occ_y :: "real option"
  occ_intensity :: jsval

record outdoor =
  out_co2 :: jsval
  out_temp :: jsval

record sim_input =
  in_width :: jsval
  in_height :: jsval
  in_fans :: "fan list"
  in_windows :: "window list"
  in_occupants :: "occupant list"
  in_outdoor :: outdoor

text \<open>The constants that \<^verbatim>\<open>simulate\<close> binds before its inner functions.\<close>

record env =
  width :: real
  height :: real
  fans :: "fan list"
  windows :: "window list"
  occupants :: "occupant list"
  outdoorCO2 :: real
  outdoorTemp :: real

definition CO2_LIMITS_outdoor :: real where "CO2_LIMITS_outdoor = 420"

definition outdoorVirus :: real where "outdoorVirus = 0"

definition mkEnv :: "sim_input \<Rightarrow> env" where
  "mkEnv inp =
     \<lparr> width = (if isFinite (in_width inp) then num (in_width inp) else 800),
       height = (if isFinite (in_height inp) then num (in_height inp) else 500),
       fans = in_fans inp,
       windows = in_windows inp,
       occupants = in_occupants inp,
       outdoorCO2 = (if isFinite (out_co2 (in_outdoor inp)) then num (out_co2 (in_outdoor inp))
                     else CO2_LIMITS_outdoor),
       outdoorTemp = (if isFinite (out_temp (in_outdoor inp)) then num (out_temp (in_outdoor inp))
                      else 10) \<rparr>"

definition rows :: nat where "rows = 28"
definition cols :: nat where "cols = 44"

definition pxToGX :: "env \<Rightarrow> real \<Rightarrow> real" where
  "pxToGX e px = (px / width e) * (real cols - 1)"

definition pxToGY :: "env \<Rightarrow> real \<Rightarrow> real" where
  "pxToGY e px = (px / height e) * (real rows - 1)"

definition STEPS :: nat where "STEPS = 40"
definition DIFF :: real where "DIFF = 0.12"
definition ADVECT :: real where "ADVECT = 0.85"
definition FAN_STRENGTH :: real where "FAN_STRENGTH = 2.8"
definition WINDOW_FLOW :: real where "WINDOW_FLOW = 2.2"
definition VENT_PULL :: real where "VENT_PULL = 0.08"
definition CO2_EMIT :: real where "CO2_EMIT = 18"
definition VIRUS_EMIT :: real where "VIRUS_EMIT = 1.0"
definition HEAT_EMIT :: real where "HEAT_EMIT = 0.04"

record fields =
  co2 :: field
  virus :: field
  temp :: field

section \<open>The velocity field\<close>

text \<open>One pass of the loop over the fans: every cell gets the fan's push added.\<close>

definition fanPush :: "env \<Rightarrow> fan \<Rightarrow> field \<times> field \<Rightarrow> field \<times> field" where
  "fanPush e f v =
     (let fx = pxToGX e (orZero (fan_x f));
          fy = pxToGY e (orZero (fan_y f));
          strength = (if isFinite (fan_strength f) then num (fan_strength f) else 1.0)
      in (tabulate2 rows cols (\<lambda>y x.
            let dx = real x - fx; dy = real y - fy; d2 = dx * dx + dy * dy + 6
            in fst v ! y ! x + (dx / d2) * FAN_STRENGTH * strength),
          tabulate2 rows cols (\<lambda>y x.
            let dx = real x - fx; dy = real y - fy; d2 = dx * dx + dy * dy + 6
            in snd v ! y ! x + (dy / d2) * FAN_STRENGTH * strength)))"

text \<open>The wall a window at \<open>(wx, wy)\<close> is closest to, as the direction of its flow.\<close>

definition wallDir :: "env \<Rightarrow> real \<Rightarrow> real \<Rightarrow> real \<times> real" where
  "wallDir e wx wy =
     (let distLeft = wx;
          distRight = width e - wx;
          distTop = wy;
          distBottom = height e - wy;
          m = min (min (min distLeft distRight) distTop) distBottom
      in if m = distLeft then (1, 0)
         else if m = distRight then (-1, 0)
         else if m = distTop then (0, 1)
         else (0, -1))"

text \<open>The band test of the velocity loop, for the cell \<open>(y, x)\<close>.\<close>

definition velBand :: "env \<Rightarrow> window \<Rightarrow> nat \<Rightarrow> nat \<Rightarrow> bool" where
  "velBand e win y x =
     (let gx = pxToGX e (orZero (win_x win));
          gy = pxToGY e (orZero (win_y win));
          half = (if isFinite (win_w win) then num (win_w win) else 120) / width e
                   * (real cols - 1) * 0.5;
          dx = real x - gx;
          dy = real y - gy
      in \<bar>dx\<bar> \<le> half \<and> \<bar>dy\<bar> \<le> 2.2)"

definition windowFlow :: "env \<Rightarrow> window \<Rightarrow> field \<times> field \<Rightarrow> field \<times> field" where
  "windowFlow e win v =
     (let wx = orZero (win_x win);
          wy = orZero (win_y win);
          wOpen = (if isFinite (win_open win) then clamp (num (win_open win)) 0 1 else 1.0);
          dir = wallDir e wx wy
      in (tabulate2 rows cols (\<lambda>y x.
            if \<not> velBand e win y x then fst v ! y ! x
            else fst v ! y ! x + fst dir * WINDOW_FLOW * wOpen),
          tabulate2 rows cols (\<lambda>y x.
            if \<not> velBand e win y x then snd v ! y ! x
            else snd v ! y ! x + snd dir * WINDOW_FLOW * wOpen)))"

definition computeVelocity :: "env \<Rightarrow> field \<times> field" where
  "computeVelocity e =
     foldl (\<lambda>v win. windowFlow e win v)
       (foldl (\<lambda>v f. fanPush e f v) (make2D rows cols 0, make2D rows cols 0) (fans e))
       (windows e)"

section \<open>Transport\<close>

definition diffuse :: "field \<Rightarrow> field" where
  "diffuse fld =
     tabulate2 rows cols (\<lambda>y x.
       let c = fld ! y ! x;
           up = fld ! nat (clamp (int y - 1) 0 (int rows - 1)) ! x;
           dn = fld ! nat (clamp (int y + 1) 0 (int rows - 1)) ! x;
           lf = fld ! y ! nat (clamp (int x - 1) 0 (int cols - 1));
           rt = fld ! y ! nat (clamp (int x + 1) 0 (int cols - 1));
           avgN = (up + dn + lf + rt) * 0.25
       in lerp c avgN DIFF)"

definition advect :: "field \<Rightarrow> field \<Rightarrow> field \<Rightarrow> field" where
  "advect fld vx vy =
     tabulate2 rows cols (\<lambda>y x.
       let ux = vx ! y ! x;
           uy = vy ! y ! x;
           backX = real x - ux * ADVECT;
           backY = real y - uy * ADVECT
       in sampleScalar fld backX backY)"

section \<open>Sources and sinks\<close>

text \<open>One pass of the loop over the occupants.\<close>

definition occupantEmit :: "env \<Rightarrow> occupant \<Rightarrow> fields \<Rightarrow> fields" where
  "occupantEmit e p s =
     (let px = pxToGX e (orZero (occ_x p));
          py = pxToGY e (orZero (occ_y p));
          intensity = (if isFinite (occ_intensity p) then clamp (num (occ_intensity p)) 0.2 3.0
                       else 1.0);
          w = (\<lambda>y x. let dx = real x - px; dy = real y - py; d2 = dx * dx + dy * dy
                      in exp (- d2 / 10))
      in \<lparr> co2 = tabulate2 rows cols (\<lambda>y x. co2 s ! y ! x + CO2_EMIT * intensity * w y x),
           virus = tabulate2 rows cols (\<lambda>y x. virus s ! y ! x + VIRUS_EMIT * intensity * w y x),
           temp = tabulate2 rows cols (\<lambda>y x. temp s ! y ! x + HEAT_EMIT * intensity * w y x) \<rparr>)"

definition applyOccupants :: "env \<Rightarrow> fields \<Rightarrow> fields" where
  "applyOccupants e s = foldl (\<lambda>s p. occupantEmit e p s) s (occupants e)"

text \<open>The band test of the ventilation loop, for the cell \<open>(y, x)\<close>.\<close>

definition ventBand :: "env \<Rightarrow> window \<Rightarrow> nat \<Rightarrow> nat \<Rightarrow> bool" where
  "ventBand e win y x =
     (let gx = pxToGX e (orZero (win_x win));
          gy = pxToGY e (orZero (win_y win));
          half = (if isFinite (win_w win) then num (win_w win) else 120) / width e
                   * (real cols - 1) * 0.5;
          dx = real x - gx;
          dy = real y - gy
      in \<bar>dx\<bar> \<le> half \<and> \<bar>dy\<bar> \<le> 2.8)"

text \<open>One pass of the loop over the windows in \<^verbatim>\<open>applyVentilation\<close>.\<close>

definition ventWindow :: "env \<Rightarrow> window \<Rightarrow> fields \<Rightarrow> fields" where
  "ventWindow e win s =
     (let wOpen = (if isFinite (win_open win) then clamp (num (win_open win)) 0 1 else 1.0);
          k = VENT_PULL * wOpen
      in \<lparr> co2 = tabulate2 rows cols (\<lambda>y x.
             if \<not> ventBand e win y x then co2 s ! y ! x
             else lerp (co2 s ! y ! x) (outdoorCO2 e) k),
           virus = tabulate2 rows cols (\<lambda>y x.
             if \<not> ventBand e win y x then virus s ! y ! x
             else lerp (virus s ! y ! x) outdoorVirus k),
           temp = tabulate2 rows cols (\<lambda>y x.
             if \<not> ventBand e win y x then temp s ! y ! x
             else lerp (temp s ! y ! x) (outdoorTemp e) (k * 0.8)) \<rparr>)"

definition applyVentilation :: "env \<Rightarrow> fields \<Rightarrow> fields" where
  "applyVentilation e s = foldl (\<lambda>s win. ventWindow e win s) s (windows e)"

section \<open>The simulation driver\<close>

definition initFields :: "env \<Rightarrow> fields" where
  "initFields e =
     \<lparr> co2 = make2D rows cols (outdoorCO2 e + 600),
       virus = make2D rows cols 0.0,
       temp = make2D rows cols 21.0 \<rparr>"

text \<open>The clamp loop that ends every timestep.\<close>

definition clampFields :: "env \<Rightarrow> fields \<Rightarrow> fields" where
  "clampFields e s =
     \<lparr> co2 = tabulate2 rows cols (\<lambda>y x. clamp (co2 s ! y ! x) (outdoorCO2 e) 5000),
       virus = tabulate2 rows cols (\<lambda>y x. clamp (virus s ! y ! x) 0 1000),
       temp = tabulate2 rows cols (\<lambda>y x. clamp (temp s ! y ! x) (-10) 40) \<rparr>"

text \<open>The body of the timestep loop.\<close>

definition step :: "env \<Rightarrow> fields \<Rightarrow> fields" where
  "step e s =
     (let lastV = computeVelocity e;
          s1 = \<lparr> co2 = advect (co2 s) (fst lastV) (snd lastV),
                 virus = advect (virus s) (fst lastV) (snd lastV),
                 temp = advect (temp s) (fst lastV) (snd lastV) \<rparr>;
          s2 = \<lparr> co2 = diffuse (co2 s1), virus = diffuse (virus s1), temp = diffuse (temp s1) \<rparr>;
          s3 = applyOccupants e s2;
          s4 = applyVentilation e s3
      in clampFields e s4)"

text \<open>The fields after \<open>n\<close> passes of the timestep loop.\<close>

primrec runSteps :: "env \<Rightarrow> nat \<Rightarrow> fields \<Rightarrow> fields" where
  "runSteps e 0 s = s"
| "runSteps e (Suc n) s = step e (runSteps e n s)"

record cell =
  cell_co2 :: real
  cell_virus :: real
  cell_temp :: real

record totals =
  sumCO2 :: real
  maxCO2 :: real
  sumV :: real
  maxV :: real
  sumT :: real

text \<open>The body of the packing loop, at the cell \<open>(y, x)\<close>: the running sums and maxima.\<close>

definition accumulate :: "fields \<Rightarrow> totals \<Rightarrow> nat \<times> nat \<Rightarrow> totals" where
  "accumulate s a yx =
     (let c = co2 s ! fst yx ! snd yx;
          v = virus s ! fst yx ! snd yx;
          tp = temp s ! fst yx ! snd yx
      in \<lparr> sumCO2 = sumCO2 a + c,
           maxCO2 = (if c > maxCO2 a then c else maxCO2 a),
           sumV = sumV a + v,
           maxV = (if v > maxV a then v else maxV a),
           sumT = sumT a + tp \<rparr>)"

definition packSums :: "fields \<Rightarrow> totals" where
  "packSums s =
     foldl (accumulate s)
       \<lparr> sumCO2 = 0, maxCO2 = 0, sumV = 0, maxV = 0, sumT = 0 \<rparr>
       (List.product [0..<rows] [0..<cols])"

definition packGrid :: "fields \<Rightarrow> cell list list" where
  "packGrid s =
     tabulate2 rows cols (\<lambda>y x.
       \<lparr> cell_co2 = co2 s ! y ! x, cell_virus = virus s ! y ! x, cell_temp = temp s ! y ! x \<rparr>)"

record arrow =
  arrow_x :: nat
  arrow_y :: nat
  arrow_ux :: real
  arrow_uy :: real

definition sampleVectors :: "field \<times> field \<Rightarrow> arrow list" where
  "sampleVectors lastV =
     map (\<lambda>(y, x). \<lparr> arrow_x = x, arrow_y = y,
                       arrow_ux = fst lastV ! y ! x, arrow_uy = snd lastV ! y ! x \<rparr>)
       (List.product (filter (\<lambda>y. y mod 4 = 0) [0..<rows]) (filter (\<lambda>x. x mod 4 = 0) [0..<cols]))"

record stats =
  avgCO2 :: real
  stat_maxCO2 :: real
  avgVirus :: real
  maxVirus :: real
  avgTemp :: real

record meta =
  meta_rows :: nat
  meta_cols :: nat
  meta_outdoor_co2 :: real
  meta_outdoor_temp :: real

record sim_result =
  grid :: "cell list list"
  vectors :: "arrow list"
  result_stats :: stats
  result_meta :: meta

definition simulate :: "sim_input \<Rightarrow> sim_result" where
  "simulate inp =
     (let e = mkEnv inp;
          s = runSteps e STEPS (initFields e);
          lastV = computeVelocity e;
          a = packSums s;
          cells = real (rows * cols)
      in \<lparr> grid = packGrid s,
           vectors = sampleVectors lastV,
           result_stats =
             \<lparr> avgCO2 = sumCO2 a / cells,
               stat_maxCO2 = maxCO2 a,
               avgVirus = sumV a / cells,
               maxVirus = maxV a,
               avgTemp = sumT a / cells \<rparr>,
           result_meta =
             \<lparr> meta_rows = rows, meta_cols = cols,
               meta_outdoor_co2 = outdoorCO2 e, meta_outdoor_temp = outdoorTemp e \<rparr> \<rparr>)"

section \<open>The fan placement optimizer\<close>

definition TRIES :: nat where "TRIES = 80"

text \<open>
  \<^verbatim>\<open>Number(v.toFixed(3))\<close>, after ECMAScript: the sign is set aside, a magnitude of
  \<open>10\<^sup>2\<^sup>1\<close> or more is printed in full, and otherwise the digits are those of the
  integer \<open>n\<close> with \<open>n / 1000\<close> nearest to the magnitude, the larger \<open>n\<close> of two.
\<close>

definition toFixed3 :: "real \<Rightarrow> real" where
  "toFixed3 v =
     (let r = (\<lambda>m. if m \<ge> 10 ^ 21 then m else real_of_int \<lfloor>m * 1000 + 1 / 2\<rfloor> / 1000)
      in if v < 0 then - r (- v) else r v)"

text \<open>
  The search's variables. \<open>bestScore\<close> starts as \<^verbatim>\<open>Infinity\<close> and
  \<open>bestStats\<close> as \<^verbatim>\<open>null\<close>: both are \<open>None\<close> here.
\<close>

record search =
  best :: fan
  bestScore :: "real option"
  bestStats :: "stats option"

record opt_result =
  bestFan :: fan
  score :: "real option"
  opt_stats :: "stats option"

text \<open>\<^verbatim>\<open>score < bestScore\<close>: every number is below \<^verbatim>\<open>Infinity\<close>.\<close>

fun belowBest :: "real \<Rightarrow> real option \<Rightarrow> bool" where
  "belowBest sc None = True"
| "belowBest sc (Some b) = (sc < b)"

definition optWidth :: "sim_input \<Rightarrow> real" where
  "optWidth inp = (if isFinite (in_width inp) then num (in_width inp) else 800)"

definition optHeight :: "sim_input \<Rightarrow> real" where
  "optHeight inp = (if isFinite (in_height inp) then num (in_height inp) else 500)"

text \<open>
  \<^verbatim>\<open>Math.random()\<close> is the stream \<open>rnd\<close> of the numbers it returns, in the order
  of the calls: trial \<open>i\<close> draws \<open>rnd (2 * i)\<close> for \<open>x\<close>, then
  \<open>rnd (2 * i + 1)\<close> for \<open>y\<close>.
\<close>

definition trialFan :: "(nat \<Rightarrow> real) \<Rightarrow> sim_input \<Rightarrow> nat \<Rightarrow> fan" where
  "trialFan rnd inp i =
     \<lparr> fan_x = Some (rnd (2 * i) * optWidth inp),
       fan_y = Some (rnd (2 * i + 1) * optHeight inp),
       fan_strength = Num 1.0 \<rparr>"

definition trialInput :: "(nat \<Rightarrow> real) \<Rightarrow> sim_input \<Rightarrow> nat \<Rightarrow> sim_input" where
  "trialInput rnd inp i =
     \<lparr> in_width = Num (optWidth inp),
       in_height = Num (optHeight inp),
       in_fans = [trialFan rnd inp i],
       in_windows = in_windows inp,
       in_occupants = in_occupants inp,
       in_outdoor = in_outdoor inp \<rparr>"

text \<open>
  The objective. \<^verbatim>\<open>s.avgTemp ?? 21\<close> is \<open>avgTemp s\<close>: the simulation always returns
  a number there.
\<close>

definition scoreOf :: "stats \<Rightarrow> real" where
  "scoreOf s =
     (let heatPenalty = \<bar>avgTemp s - 21\<bar>
      in (avgCO2 s / 1200) * 1.0 +
         (stat_maxCO2 s / 2500) * 0.6 +
         (avgVirus s / 8) * 1.2 +
         (maxVirus s / 25) * 0.9 +
         heatPenalty * 0.15)"

definition trialStats :: "(nat \<Rightarrow> real) \<Rightarrow> sim_input \<Rightarrow> nat \<Rightarrow> stats" where
  "trialStats rnd inp i = result_stats (simulate (trialInput rnd inp i))"

text \<open>The body of the loop over the trials.\<close>

definition tryFan :: "(nat \<Rightarrow> real) \<Rightarrow> sim_input \<Rightarrow> search \<Rightarrow> nat \<Rightarrow> search" where
  "tryFan rnd inp b i =
     (let fan = trialFan rnd inp i;
          s = trialStats rnd inp i;
          sc = scoreOf s
      in if belowBest sc (bestScore b)
         then \<lparr> best = fan, bestScore = Some sc, bestStats = Some s \<rparr>
         else b)"

definition searchFan :: "(nat \<Rightarrow> real) \<Rightarrow> sim_input \<Rightarrow> search" where
  "searchFan rnd inp =
     foldl (tryFan rnd inp)
       \<lparr> best = \<lparr> fan_x = Some (optWidth inp / 2), fan_y = Some (optHeight inp / 2),
                  fan_strength = Num 1.0 \<rparr>,
         bestScore = None, bestStats = None \<rparr>
       [0..<TRIES]"

definition optimizeFan :: "(nat \<Rightarrow> real) \<Rightarrow> sim_input \<Rightarrow> opt_result" where
  "optimizeFan rnd inp =
     (let b = searchFan rnd inp
      in \<lparr> bestFan = best b,
           score = map_option toFixed3 (bestScore b),
           opt_stats = bestStats b \<rparr>)"

text \<open>The score of trial \<open>i\<close>, evaluated on its own.\<close>

definition trialScore :: "(nat \<Rightarrow> real) \<Rightarrow> sim_input \<Rightarrow> nat \<Rightarrow> real" where
  "trialScore rnd inp i = scoreOf (trialStats rnd inp i)"

text \<open>The search's variables when trial \<open>k\<close> is the best so far.\<close>

definition winner :: "(nat \<Rightarrow> real) \<Rightarrow> sim_input \<Rightarrow> nat \<Rightarrow> search" where
  "winner rnd inp k =
     \<lparr> best = trialFan rnd inp k, bestScore = Some (trialScore rnd inp k),
       bestStats = Some (trialStats rnd inp k) \<rparr>"

section \<open>Concrete rooms\<close>

definition room :: "real \<Rightarrow> real \<Rightarrow> fan list \<Rightarrow> window list \<Rightarrow> occupant list \<Rightarrow> env" where
  "room w h fs ws ps =
     \<lparr> width = w, height = h, fans = fs, windows = ws, occupants = ps,
       outdoorCO2 = 420, outdoorTemp = 10 \<rparr>"

definition still :: "field \<times> field" where
  "still = (make2D rows cols 0, make2D rows cols 0)"

definition cornerFan :: fan where
  "cornerFan = \<lparr> fan_x = Some 0, fan_y = Some 0, fan_strength = Num 1 \<rparr>"

definition centreWindow :: "jsval \<Rightarrow> window" where
  "centreWindow op = \<lparr> win_x = Some 250, win_y = Some 250, win_w = Undefined, win_open = op \<rparr>"

definition bareInput :: "jsval \<Rightarrow> jsval \<Rightarrow> sim_input" where
  "bareInput w h =
     \<lparr> in_width = w, in_height = h, in_fans = [], in_windows = [], in_occupants = [],
       in_outdoor = \<lparr> out_co2 = Undefined, out_temp = Undefined \<rparr> \<rparr>"

definition outdoorInput :: "jsval \<Rightarrow> sim_input" where
  "outdoorInput c =
     \<lparr> in_width = Num 800, in_height = Num 500, in_fans = [], in_windows = [], in_occupants = [],
       in_outdoor = \<lparr> out_co2 = c, out_temp = Undefined \<rparr> \<rparr>"

definition oneOccupant :: sim_input where
  "oneOccupant =
     \<lparr> in_width = Num 800, in_height = Num 500, in_fans = [], in_windows = [],
       in_occupants = [\<lparr> occ_x = Some 400, occ_y = Some 250, occ_intensity = Num 1 \<rparr>],
       in_outdoor = \<lparr> out_co2 = Undefined, out_temp = Undefined \<rparr> \<rparr>"

text \<open>
  A position reads as a point of the room: \<open>0 \<le> x \<le> width\<close> and
  \<open>0 \<le> y \<le> height\<close>.
\<close>

definition inside :: "env \<Rightarrow> real option \<Rightarrow> real option \<Rightarrow> bool" where
  "inside e px py =
     (0 \<le> orZero px \<and> orZero px \<le> width e \<and> 0 \<le> orZero py \<and> orZero py \<le> height e)"

text \<open>
  The room has positive width and height, and every fan, window and occupant is at a
  point of the room.
\<close>

definition withinRoom :: "env \<Rightarrow> bool" where
  "withinRoom e =
     (0 < width e \<and> 0 < height e \<and>
      list_all (\<lambda>f. inside e (fan_x f) (fan_y f)) (fans e) \<and>
      list_all (\<lambda>w. inside e (win_x w) (win_y w)) (windows e) \<and>
      list_all (\<lambda>p. inside e (occ_x p) (occ_y p)) (occupants e))"

definition busyInput :: "jsval \<Rightarrow> jsval \<Rightarrow> sim_input" where
  "busyInput w h =
     \<lparr> in_width = w, in_height = h,
       in_fans = [\<lparr> fan_x = Some 10, fan_y = Some 10, fan_strength = Num 2 \<rparr>],
       in_windows = [\<lparr> win_x = Some 0, win_y = Some 250, win_w = Num 160, win_open = Num 1 \<rparr>],
       in_occupants = [\<lparr> occ_x = Some 400, occ_y = Some 250, occ_intensity = Num 1 \<rparr>],
       in_outdoor = \<lparr> out_co2 = Num 450, out_temp = Num 5 \<rparr> \<rparr>"

section \<open>Predicates on fields\<close>

text \<open>A field is a \<open>rows\<close> by \<open>cols\<close> table whose cells all lie in \<open>[lo, hi]\<close>.\<close>

definition cellsIn :: "real \<Rightarrow> real \<Rightarrow> field \<Rightarrow> bool" where
  "cellsIn lo hi f =
     (length f = rows \<and>
      (\<forall>y \<in> set [0..<rows]. length (f ! y) = cols \<and>
         (\<forall>x \<in> set [0..<cols]. lo \<le> f ! y ! x \<and> f ! y ! x \<le> hi)))"

text \<open>A field is a \<open>rows\<close> by \<open>cols\<close> table whose cells all satisfy \<open>P\<close>.\<close>

definition cellsSat :: "(real \<Rightarrow> bool) \<Rightarrow> field \<Rightarrow> bool" where
  "cellsSat P f =
     (length f = rows \<and>
      (\<forall>y \<in> set [0..<rows]. length (f ! y) = cols \<and> (\<forall>x \<in> set [0..<cols]. P (f ! y ! x))))"

section \<open>JavaScript arithmetic beyond the finite numbers\<close>

text \<open>
  To see where a call can fail, the simulation is read a second time with JavaScript's
  own numbers: a finite number, an infinity or NaN, all values of \<open>jsval\<close>
  (\<open>Undefined\<close>, the result of reading past the end of an array, turns into NaN in
  arithmetic). Finite numbers are still exact reals, and zero has no sign: a division of
  a nonzero number by zero yields the infinity of the sign of the numerator.
\<close>

datatype js_error = TypeError

definition thenE :: "'e + 'a \<Rightarrow> ('a \<Rightarrow> 'e + 'b) \<Rightarrow> 'e + 'b" where
  "thenE m f = (case m of Inl e \<Rightarrow> Inl e | Inr v \<Rightarrow> f v)"

fun js_neg :: "jsval \<Rightarrow> jsval" where
  "js_neg (Num a) = Num (- a)"
| "js_neg PosInfinity = NegInfinity"
| "js_neg NegInfinity = PosInfinity"
| "js_neg _ = NaN"

fun js_add :: "jsval \<Rightarrow> jsval \<Rightarrow> jsval" where
  "js_add (Num a) (Num b) = Num (a + b)"
| "js_add (Num a) PosInfinity = PosInfinity"
| "js_add (Num a) NegInfinity = NegInfinity"
| "js_add PosInfinity (Num b) = PosInfinity"
| "js_add PosInfinity PosInfinity = PosInfinity"
| "js_add NegInfinity (Num b) = NegInfinity"
| "js_add NegInfinity NegInfinity = NegInfinity"
| "js_add _ _ = NaN"

definition js_sub :: "jsval \<Rightarrow> jsval \<Rightarrow> jsval" where
  "js_sub a b = js_add a (js_neg b)"

fun js_mul :: "jsval \<Rightarrow> jsval \<Rightarrow> jsval" where
  "js_mul (Num a) (Num b) = Num (a * b)"
| "js_mul (Num a) PosInfinity = (if a = 0 then NaN else if 0 < a then PosInfinity else NegInfinity)"
| "js_mul (Num a) NegInfinity = (if a = 0 then NaN else if 0 < a then NegInfinity else PosInfinity)"
| "js_mul PosInfinity (Num b) = (if b = 0 then NaN else if 0 < b then PosInfinity else NegInfinity)"
| "js_mul NegInfinity (Num b) = (if b = 0 then NaN else if 0 < b then NegInfinity else PosInfinity)"
| "js_mul PosInfinity PosInfinity = PosInfinity"
| "js_mul PosInfinity NegInfinity = NegInfinity"
| "js_mul NegInfinity PosInfinity = NegInfinity"
| "js_mul NegInfinity NegInfinity = PosInfinity"
| "js_mul _ _ = NaN"

fun js_div :: "jsval \<Rightarrow> jsval \<Rightarrow> jsval" where
  "js_div (Num a) (Num b) =
     (if b \<noteq> 0 then Num (a / b)
      else if a = 0 then NaN else if 0 < a then PosInfinity else NegInfinity)"
| "js_div (Num a) PosInfinity = Num 0"
| "js_div (Num a) NegInfinity = Num 0"
| "js_div PosInfinity (Num b) = (if 0 \<le> b then PosInfinity else NegInfinity)"
| "js_div NegInfinity (Num b) = (if 0 \<le> b then NegInfinity else PosInfinity)"
| "js_div _ _ = NaN"

text \<open>\<^verbatim>\<open>a <= b\<close> and \<^verbatim>\<open>a < b\<close>: false as soon as one side is NaN.\<close>

fun js_le :: "jsval \<Rightarrow> jsval \<Rightarrow> bool" where
  "js_le (Num a) (Num b) = (a \<le> b)"
| "js_le (Num a) PosInfinity = True"
| "js_le NegInfinity (Num b) = True"
| "js_le NegInfinity NegInfinity = True"
| "js_le NegInfinity PosInfinity = True"
| "js_le PosInfinity PosInfinity = True"
| "js_le _ _ = False"

fun js_lt :: "jsval \<Rightarrow> jsval \<Rightarrow> bool" where
  "js_lt (Num a) (Num b) = (a < b)"
| "js_lt (Num a) PosInfinity = True"
| "js_lt NegInfinity (Num b) = True"
| "js_lt NegInfinity PosInfinity = True"
| "js_lt _ _ = False"

fun js_isNaN :: "jsval \<Rightarrow> bool" where
  "js_isNaN NaN = True"
| "js_isNaN Undefined = True"
| "js_isNaN _ = False"

text \<open>\<^verbatim>\<open>Math.min\<close>, \<^verbatim>\<open>Math.max\<close>: NaN as soon as one argument is.\<close>

definition js_min :: "jsval \<Rightarrow> jsval \<Rightarrow> jsval" where
  "js_min a b = (if js_isNaN a \<or> js_isNaN b then NaN else if js_le a b then a else b)"

definition js_max :: "jsval \<Rightarrow> jsval \<Rightarrow> jsval" where
  "js_max a b = (if js_isNaN a \<or> js_isNaN b then NaN else if js_le a b then b else a)"

fun js_abs :: "jsval \<Rightarrow> jsval" where
  "js_abs (Num a) = Num \<bar>a\<bar>"
| "js_abs PosInfinity = PosInfinity"
| "js_abs NegInfinity = PosInfinity"
| "js_abs _ = NaN"

fun js_floor :: "jsval \<Rightarrow> jsval" where
  "js_floor (Num a) = Num (real_of_int \<lfloor>a\<rfloor>)"
| "js_floor PosInfinity = PosInfinity"
| "js_floor NegInfinity = NegInfinity"
| "js_floor _ = NaN"

fun js_exp :: "jsval \<Rightarrow> jsval" where
  "js_exp (Num a) = Num (exp a)"
| "js_exp PosInfinity = PosInfinity"
| "js_exp NegInfinity = Num 0"
| "js_exp _ = NaN"

definition js_clamp :: "jsval \<Rightarrow> jsval \<Rightarrow> jsval \<Rightarrow> jsval" where
  "js_clamp v a b = js_max a (js_min b v)"

definition js_lerp :: "jsval \<Rightarrow> jsval \<Rightarrow> jsval \<Rightarrow> jsval" where
  "js_lerp a b t = js_add a (js_mul (js_sub b a) t)"

text \<open>
  \<^verbatim>\<open>xs[i]\<close>: the element when \<open>i\<close> is an integer from 0 up to the length, and
  \<^verbatim>\<open>undefined\<close> (here \<open>None\<close>) for any other number, NaN included.
\<close>

definition js_index :: "'a list \<Rightarrow> jsval \<Rightarrow> 'a option" where
  "js_index xs i =
     (case i of
        Num r \<Rightarrow>
          if r = real_of_int \<lfloor>r\<rfloor> \<and> 0 \<le> r \<and> r < real (length xs) then Some (xs ! nat \<lfloor>r\<rfloor>)
          else None
      | _ \<Rightarrow> None)"

text \<open>
  \<^verbatim>\<open>field[i][j]\<close>: reading \<open>[j]\<close> of \<^verbatim>\<open>undefined\<close> throws a TypeError; reading
  past the end of a row is \<^verbatim>\<open>undefined\<close>.
\<close>

definition js_read :: "jsval list list \<Rightarrow> jsval \<Rightarrow> jsval \<Rightarrow> js_error + jsval" where
  "js_read fld i j =
     (case js_index fld i of
        None \<Rightarrow> Inl TypeError
      | Some row \<Rightarrow> Inr (case js_index row j of None \<Rightarrow> Undefined | Some v \<Rightarrow> v))"

definition js_sampleScalar :: "jsval list list \<Rightarrow> jsval \<Rightarrow> jsval \<Rightarrow> js_error + jsval" where
  "js_sampleScalar fld x y =
     (case fld of
        [] \<Rightarrow> Inl TypeError
      | row0 # _ \<Rightarrow>
         (let nrows = length fld;
              ncols = length row0;
              xc = js_clamp x (Num 0) (Num (real ncols - 1));
              yc = js_clamp y (Num 0) (Num (real nrows - 1));
              x0 = js_floor xc;
              y0 = js_floor yc;
              x1 = js_clamp (js_add x0 (Num 1)) (Num 0) (Num (real ncols - 1));
              y1 = js_clamp (js_add y0 (Num 1)) (Num 0) (Num (real nrows - 1));
              tx = js_sub xc x0;
              ty = js_sub yc y0
          in thenE (js_read fld y0 x0) (\<lambda>v00.
             thenE (js_read fld y0 x1) (\<lambda>v10.
             thenE (js_read fld y1 x0) (\<lambda>v01.
             thenE (js_read fld y1 x1) (\<lambda>v11.
               let a = js_lerp v00 v10 tx;
                   b = js_lerp v01 v11 tx
               in Inr (js_lerp a b ty)))))))"

fun sequenceE :: "('e + 'a) list \<Rightarrow> 'e + 'a list" where
  "sequenceE [] = Inr []"
| "sequenceE (m # ms) = thenE m (\<lambda>v. thenE (sequenceE ms) (\<lambda>vs. Inr (v # vs)))"

definition tabulate2E :: "nat \<Rightarrow> nat \<Rightarrow> (nat \<Rightarrow> nat \<Rightarrow> 'e + 'a) \<Rightarrow> 'e + 'a list list" where
  "tabulate2E r c g = sequenceE (map (\<lambda>y. sequenceE (map (\<lambda>x. g y x) [0..<c])) [0..<r])"

section \<open>The simulation over JavaScript's numbers\<close>

text \<open>
  The functions of the simulation again, now with the arithmetic above. After the
  sanitising lines the room's width and height, the outdoor baseline, and every strength,
  width, open fraction and intensity are finite numbers, and so is every coordinate: they
  stay reals. What is computed from a quotient by the width or the height is a \<open>jsval\<close>.
\<close>

type_synonym js_field = "jsval list list"

record js_fields =
  js_co2 :: js_field
  js_virus :: js_field
  js_temp :: js_field

definition js_pxToGX :: "env \<Rightarrow> real \<Rightarrow> jsval" where
  "js_pxToGX e px = js_mul (js_div (Num px) (Num (width e))) (Num (real cols - 1))"

definition js_pxToGY :: "env \<Rightarrow> real \<Rightarrow> jsval" where
  "js_pxToGY e px = js_mul (js_div (Num px) (Num (height e))) (Num (real rows - 1))"

definition js_fanPush :: "env \<Rightarrow> fan \<Rightarrow> js_field \<times> js_field \<Rightarrow> js_field \<times> js_field" where
  "js_fanPush e f v =
     (let fx = js_pxToGX e (orZero (fan_x f));
          fy = js_pxToGY e (orZero (fan_y f));
          strength = (if isFinite (fan_strength f) then num (fan_strength f) else 1.0)
      in (tabulate2 rows cols (\<lambda>y x.
            let dx = js_sub (Num (real x)) fx; dy = js_sub (Num (real y)) fy;
                d2 = js_add (js_add (js_mul dx dx) (js_mul dy dy)) (Num 6)
            in js_add (fst v ! y ! x)
                 (js_mul (js_mul (js_div dx d2) (Num FAN_STRENGTH)) (Num strength))),
          tabulate2 rows cols (\<lambda>y x.
            let dx = js_sub (Num (real x)) fx; dy = js_sub (Num (real y)) fy;
                d2 = js_add (js_add (js_mul dx dx) (js_mul dy dy)) (Num 6)
            in js_add (snd v ! y ! x)
                 (js_mul (js_mul (js_div dy d2) (Num FAN_STRENGTH)) (Num strength)))))"

definition js_velBand :: "env \<Rightarrow> window \<Rightarrow> nat \<Rightarrow> nat \<Rightarrow> bool" where
  "js_velBand e win y x =
     (let gx = js_pxToGX e (orZero (win_x win));
          gy = js_pxToGY e (orZero (win_y win));
          half = js_mul (js_mul
                   (js_div (Num (if isFinite (win_w win) then num (win_w win) else 120))
                      (Num (width e)))
                   (Num (real cols - 1))) (Num 0.5);
          dx = js_sub (Num (real x)) gx;
          dy = js_sub (Num (real y)) gy
      in js_le (js_abs dx) half \<and> js_le (js_abs dy) (Num 2.2))"

definition js_windowFlow ::
    "env \<Rightarrow> window \<Rightarrow> js_field \<times> js_field \<Rightarrow> js_field \<times> js_field" where
  "js_windowFlow e win v =
     (let wx = orZero (win_x win);
          wy = orZero (win_y win);
          wOpen = (if isFinite (win_open win) then clamp (num (win_open win)) 0 1 else 1.0);
          dir = wallDir e wx wy
      in (tabulate2 rows cols (\<lambda>y x.
            if \<not> js_velBand e win y x then fst v ! y ! x
            else js_add (fst v ! y ! x) (Num (fst dir * WINDOW_FLOW * wOpen))),
          tabulate2 rows cols (\<lambda>y x.
            if \<not> js_velBand e win y x then snd v ! y ! x
            else js_add (snd v ! y ! x) (Num (snd dir * WINDOW_FLOW * wOpen)))))"

definition js_computeVelocity :: "env \<Rightarrow> js_field \<times> js_field" where
  "js_computeVelocity e =
     foldl (\<lambda>v win. js_windowFlow e win v)
       (foldl (\<lambda>v f. js_fanPush e f v)
          (make2D rows cols (Num 0), make2D rows cols (Num 0)) (fans e))
       (windows e)"

definition js_diffuse :: "js_field \<Rightarrow> js_field" where
  "js_diffuse fld =
     tabulate2 rows cols (\<lambda>y x.
       let c = fld ! y ! x;
           up = fld ! nat (clamp (int y - 1) 0 (int rows - 1)) ! x;
           dn = fld ! nat (clamp (int y + 1) 0 (int rows - 1)) ! x;
           lf = fld ! y ! nat (clamp (int x - 1) 0 (int cols - 1));
           rt = fld ! y ! nat (clamp (int x + 1) 0 (int cols - 1));
           avgN = js_mul (js_add (js_add (js_add up dn) lf) rt) (Num 0.25)
       in js_lerp c avgN (Num DIFF))"

definition js_advect :: "js_field \<Rightarrow> js_field \<Rightarrow> js_field \<Rightarrow> js_error + js_field" where
  "js_advect fld vx vy =
     tabulate2E rows cols (\<lambda>y x.
       let ux = vx ! y ! x;
           uy = vy ! y ! x;
           backX = js_sub (Num (real x)) (js_mul ux (Num ADVECT));
           backY = js_sub (Num (real y)) (js_mul uy (Num ADVECT))
       in js_sampleScalar fld backX backY)"

definition js_occupantEmit :: "env \<Rightarrow> occupant \<Rightarrow> js_fields \<Rightarrow> js_fields" where
  "js_occupantEmit e p s =
     (let px = js_pxToGX e (orZero (occ_x p));
          py = js_pxToGY e (orZero (occ_y p));
          intensity = (if isFinite (occ_intensity p) then clamp (num (occ_intensity p)) 0.2 3.0
                       else 1.0);
          w = (\<lambda>y x. let dx = js_sub (Num (real x)) px; dy = js_sub (Num (real y)) py;
                          d2 = js_add (js_mul dx dx) (js_mul dy dy)
                      in js_exp (js_div (js_neg d2) (Num 10)))
      in \<lparr> js_co2 = tabulate2 rows cols (\<lambda>y x.
             js_add (js_co2 s ! y ! x) (js_mul (Num (CO2_EMIT * intensity)) (w y x))),
           js_virus = tabulate2 rows cols (\<lambda>y x.
             js_add (js_virus s ! y ! x) (js_mul (Num (VIRUS_EMIT * intensity)) (w y x))),
           js_temp = tabulate2 rows cols (\<lambda>y x.
             js_add (js_temp s ! y ! x) (js_mul (Num (HEAT_EMIT * intensity)) (w y x))) \<rparr>)"

definition js_applyOccupants :: "env \<Rightarrow> js_fields \<Rightarrow> js_fields" where
  "js_applyOccupants e s = foldl (\<lambda>s p. js_occupantEmit e p s) s (occupants e)"

definition js_ventBand :: "env \<Rightarrow> window \<Rightarrow> nat \<Rightarrow> nat \<Rightarrow> bool" where
  "js_ventBand e win y x =
     (let gx = js_pxToGX e (orZero (win_x win));
          gy = js_pxToGY e (orZero (win_y win));
          half = js_mul (js_mul
                   (js_div (Num (if isFinite (win_w win) then num (win_w win) else 120))
                      (Num (width e)))
                   (Num (real cols - 1))) (Num 0.5);
          dx = js_sub (Num (real x)) gx;
          dy = js_sub (Num (real y)) gy
      in js_le (js_abs dx) half \<and> js_le (js_abs dy) (Num 2.8))"

definition js_ventWindow :: "env \<Rightarrow> window \<Rightarrow> js_fields \<Rightarrow> js_fields" where
  "js_ventWindow e win s =
     (let wOpen = (if isFinite (win_open win) then clamp (num (win_open win)) 0 1 else 1.0);
          k = VENT_PULL * wOpen
      in \<lparr> js_co2 = tabulate2 rows cols (\<lambda>y x.
             if \<not> js_ventBand e win y x then js_co2 s ! y ! x
             else js_lerp (js_co2 s ! y ! x) (Num (outdoorCO2 e)) (Num k)),
           js_virus = tabulate2 rows cols (\<lambda>y x.
             if \<not> js_ventBand e win y x then js_virus s ! y ! x
             else js_lerp (js_virus s ! y ! x) (Num outdoorVirus) (Num k)),
           js_temp = tabulate2 rows cols (\<lambda>y x.
             if \<not> js_ventBand e win y x then js_temp s ! y ! x
             else js_lerp (js_temp s ! y ! x) (Num (outdoorTemp e)) (Num (k * 0.8))) \<rparr>)"

definition js_applyVentilation :: "env \<Rightarrow> js_fields \<Rightarrow> js_fields" where
  "js_applyVentilation e s = foldl (\<lambda>s win. js_ventWindow e win s) s (windows e)"

definition js_initFields :: "env \<Rightarrow> js_fields" where
  "js_initFields e =
     \<lparr> js_co2 = make2D rows cols (Num (outdoorCO2 e + 600)),
       js_virus = make2D rows cols (Num 0.0),
       js_temp = make2D rows cols (Num 21.0) \<rparr>"

definition js_clampFields :: "env \<Rightarrow> js_fields \<Rightarrow> js_fields" where
  "js_clampFields e s =
     \<lparr> js_co2 = tabulate2 rows cols (\<lambda>y x.
         js_clamp (js_co2 s ! y ! x) (Num (outdoorCO2 e)) (Num 5000)),
       js_virus = tabulate2 rows cols (\<lambda>y x. js_clamp (js_virus s ! y ! x) (Num 0) (Num 1000)),
       js_temp = tabulate2 rows cols (\<lambda>y x. js_clamp (js_temp s ! y ! x) (Num (- 10)) (Num 40)) \<rparr>"

text \<open>The body of the timestep loop: the first advection to throw ends the call.\<close>

definition js_step :: "env \<Rightarrow> js_fields \<Rightarrow> js_error + js_fields" where
  "js_step e s =
     (let lastV = js_computeVelocity e
      in thenE (js_advect (js_co2 s) (fst lastV) (snd lastV)) (\<lambda>c.
         thenE (js_advect (js_virus s) (fst lastV) (snd lastV)) (\<lambda>v.
         thenE (js_advect (js_temp s) (fst lastV) (snd lastV)) (\<lambda>t.
           let s2 = \<lparr> js_co2 = js_diffuse c, js_virus = js_diffuse v, js_temp = js_diffuse t \<rparr>;
               s3 = js_applyOccupants e s2;
               s4 = js_applyVentilation e s3
           in Inr (js_clampFields e s4)))))"

primrec js_runSteps :: "env \<Rightarrow> nat \<Rightarrow> js_fields \<Rightarrow> js_error + js_fields" where
  "js_runSteps e 0 s = Inr s"
| "js_runSteps e (Suc n) s = thenE (js_runSteps e n s) (js_step e)"

record js_cell =
  js_cell_co2 :: jsval
  js_cell_virus :: jsval
  js_cell_temp :: jsval

record js_totals =
  js_sumCO2 :: jsval
  js_maxCO2 :: jsval
  js_sumV :: jsval
  js_maxV :: jsval
  js_sumT :: jsval

definition js_accumulate :: "js_fields \<Rightarrow> js_totals \<Rightarrow> nat \<times> nat \<Rightarrow> js_totals" where
  "js_accumulate s a yx =
     (let c = js_co2 s ! fst yx ! snd yx;
          v = js_virus s ! fst yx ! snd yx;
          tp = js_temp s ! fst yx ! snd yx
      in \<lparr> js_sumCO2 = js_add (js_sumCO2 a) c,
           js_maxCO2 = (if js_lt (js_maxCO2 a) c then c else js_maxCO2 a),
           js_sumV = js_add (js_sumV a) v,
           js_maxV = (if js_lt (js_maxV a) v then v else js_maxV a),
           js_sumT = js_add (js_sumT a) tp \<rparr>)"

definition js_packSums :: "js_fields \<Rightarrow> js_totals" where
  "js_packSums s =
     foldl (js_accumulate s)
       \<lparr> js_sumCO2 = Num 0, js_maxCO2 = Num 0, js_sumV = Num 0, js_maxV = Num 0,
         js_sumT = Num 0 \<rparr>
       (List.product [0..<rows] [0..<cols])"

definition js_packGrid :: "js_fields \<Rightarrow> js_cell list list" where
  "js_packGrid s =
     tabulate2 rows cols (\<lambda>y x.
       \<lparr> js_cell_co2 = js_co2 s ! y ! x, js_cell_virus = js_virus s ! y ! x,
         js_cell_temp = js_temp s ! y ! x \<rparr>)"

record js_arrow =
  js_arrow_x :: nat
  js_arrow_y :: nat
  js_arrow_ux :: jsval
  js_arrow_uy :: jsval

definition js_sampleVectors :: "js_field \<times> js_field \<Rightarrow> js_arrow list" where
  "js_sampleVectors lastV =
     map (\<lambda>(y, x). \<lparr> js_arrow_x = x, js_arrow_y = y,
                       js_arrow_ux = fst lastV ! y ! x, js_arrow_uy = snd lastV ! y ! x \<rparr>)
       (List.product (filter (\<lambda>y. y mod 4 = 0) [0..<rows]) (filter (\<lambda>x. x mod 4 = 0) [0..<cols]))"

record js_stats =
  js_avgCO2 :: jsval
  js_stat_maxCO2 :: jsval
  js_avgVirus :: jsval
  js_maxVirus :: jsval
  js_avgTemp :: jsval

record js_result =
  js_grid :: "js_cell list list"
  js_vectors :: "js_arrow list"
  js_result_stats :: js_stats
  js_result_meta :: meta

text \<open>
  \<^verbatim>\<open>simulate\<close>: a value of \<open>Inl\<close> is the exception the call ends with, a value of
  \<open>Inr\<close> the object it returns.
\<close>

definition js_simulate :: "sim_input \<Rightarrow> js_error + js_result" where
  "js_simulate inp =
     (let e = mkEnv inp
      in thenE (js_runSteps e STEPS (js_initFields e)) (\<lambda>s.
           let lastV = js_computeVelocity e;
               a = js_packSums s;
               cells = Num (real (rows * cols))
           in Inr \<lparr> js_grid = js_packGrid s,
                    js_vectors = js_sampleVectors lastV,
                    js_result_stats =
                      \<lparr> js_avgCO2 = js_div (js_sumCO2 a) cells,
                        js_stat_maxCO2 = js_maxCO2 a,
                        js_avgVirus = js_div (js_sumV a) cells,
                        js_maxVirus = js_maxV a,
                        js_avgTemp = js_div (js_sumT a) cells \<rparr>,
                    js_result_meta =
                      \<lparr> meta_rows = rows, meta_cols = cols,
                        meta_outdoor_co2 = outdoorCO2 e, meta_outdoor_temp = outdoorTemp e \<rparr> \<rparr>))"

text \<open>\<^verbatim>\<open>Number(v.toFixed(3))\<close>: an infinity and NaN print and read back as themselves.\<close>

fun js_toFixed3 :: "jsval \<Rightarrow> jsval" where
  "js_toFixed3 (Num v) = Num (toFixed3 v)"
| "js_toFixed3 PosInfinity = PosInfinity"
| "js_toFixed3 NegInfinity = NegInfinity"
| "js_toFixed3 _ = NaN"

record js_search =
  js_best :: fan
  js_bestScore :: jsval
  js_bestStats :: "js_stats option"

record js_opt_result =
  js_bestFan :: fan
  js_score :: jsval
  js_opt_stats :: "js_stats option"

definition js_scoreOf :: "js_stats \<Rightarrow> jsval" where
  "js_scoreOf s =
     (let heatPenalty = js_abs (js_sub (js_avgTemp s) (Num 21))
      in js_add (js_add (js_add (js_add
           (js_mul (js_div (js_avgCO2 s) (Num 1200)) (Num 1.0))
           (js_mul (js_div (js_stat_maxCO2 s) (Num 2500)) (Num 0.6)))
           (js_mul (js_div (js_avgVirus s) (Num 8)) (Num 1.2)))
           (js_mul (js_div (js_maxVirus s) (Num 25)) (Num 0.9)))
           (js_mul heatPenalty (Num 0.15)))"

text \<open>The body of the loop over the trials: a simulation that throws ends the search.\<close>

definition js_tryFan ::
    "(nat \<Rightarrow> real) \<Rightarrow> sim_input \<Rightarrow> js_search \<Rightarrow> nat \<Rightarrow> js_error + js_search" where
  "js_tryFan rnd inp b i =
     (let fan = trialFan rnd inp i
      in thenE (js_simulate (trialInput rnd inp i)) (\<lambda>result.
           let s = js_result_stats result;
               sc = js_scoreOf s
           in Inr (if js_lt sc (js_bestScore b)
                   then \<lparr> js_best = fan, js_bestScore = sc, js_bestStats = Some s \<rparr>
                   else b)))"

definition js_searchFan :: "(nat \<Rightarrow> real) \<Rightarrow> sim_input \<Rightarrow> js_error + js_search" where
  "js_searchFan rnd inp =
     foldl (\<lambda>m i. thenE m (\<lambda>b. js_tryFan rnd inp b i))
       (Inr \<lparr> js_best = \<lparr> fan_x = Some (optWidth inp / 2), fan_y = Some (optHeight inp / 2),
                           fan_strength = Num 1.0 \<rparr>,
               js_bestScore = PosInfinity, js_bestStats = None \<rparr>)
       [0..<TRIES]"

definition js_optimizeFan :: "(nat \<Rightarrow> real) \<Rightarrow> sim_input \<Rightarrow> js_error + js_opt_result" where
  "js_optimizeFan rnd inp =
     thenE (js_searchFan rnd inp) (\<lambda>b.
       Inr \<lparr> js_bestFan = js_best b,
             js_score = js_toFixed3 (js_bestScore b),
             js_opt_stats = js_bestStats b \<rparr>)"

section \<open>Reals as JavaScript numbers\<close>

definition liftF :: "field \<Rightarrow> js_field" where
  "liftF f = map (map Num) f"

definition liftFields :: "fields \<Rightarrow> js_fields" where
  "liftFields s = \<lparr> js_co2 = liftF (co2 s), js_virus = liftF (virus s), js_temp = liftF (temp s) \<rparr>"

definition liftCell :: "cell \<Rightarrow> js_cell" where
  "liftCell c =
     \<lparr> js_cell_co2 = Num (cell_co2 c), js_cell_virus = Num (cell_virus c),
       js_cell_temp = Num (cell_temp c) \<rparr>"

definition liftArrow :: "arrow \<Rightarrow> js_arrow" where
  "liftArrow a =
     \<lparr> js_arrow_x = arrow_x a, js_arrow_y = arrow_y a,
       js_arrow_ux = Num (arrow_ux a), js_arrow_uy = Num (arrow_uy a) \<rparr>"

definition liftStats :: "stats \<Rightarrow> js_stats" where
  "liftStats s =
     \<lparr> js_avgCO2 = Num (avgCO2 s), js_stat_maxCO2 = Num (stat_maxCO2 s),
       js_avgVirus = Num (avgVirus s), js_maxVirus = Num (maxVirus s),
       js_avgTemp = Num (avgTemp s) \<rparr>"

definition liftResult :: "sim_result \<Rightarrow> js_result" where
  "liftResult r =
     \<lparr> js_grid = map (map liftCell) (grid r),
       js_vectors = map liftArrow (vectors r),
       js_result_stats = liftStats (result_stats r),
       js_result_meta = result_meta r \<rparr>"

definition liftOpt :: "opt_result \<Rightarrow> js_opt_result" where
  "liftOpt r =
     \<lparr> js_bestFan = bestFan r,
       js_score = (case score r of None \<Rightarrow> PosInfinity | Some v \<Rightarrow> Num v),
       js_opt_stats = map_option liftStats (opt_stats r) \<rparr>"

definition liftV :: "field \<times> field \<Rightarrow> js_field \<times> js_field" where
  "liftV v = (liftF (fst v), liftF (snd v))"

definition liftTotals :: "totals \<Rightarrow> js_totals" where
  "liftTotals a =
     \<lparr> js_sumCO2 = Num (sumCO2 a), js_maxCO2 = Num (maxCO2 a), js_sumV = Num (sumV a),
       js_maxV = Num (maxV a), js_sumT = Num (sumT a) \<rparr>"

definition liftSearch :: "search \<Rightarrow> js_search" where
  "liftSearch b =
     \<lparr> js_best = best b,
       js_bestScore = (case bestScore b of None \<Rightarrow> PosInfinity | Some v \<Rightarrow> Num v),
       js_bestStats = map_option liftStats (bestStats b) \<rparr>"

text \<open>All three fields are \<open>rows\<close> by \<open>cols\<close> tables.\<close>

definition shapedS :: "fields \<Rightarrow> bool" where
  "shapedS s = (cellsSat (\<lambda>_. True) (co2 s) \<and> cellsSat (\<lambda>_. True) (virus s)
     \<and> cellsSat (\<lambda>_. True) (temp s))"

definition fanInput :: "jsval \<Rightarrow> jsval \<Rightarrow> sim_input" where
  "fanInput w h =
     \<lparr> in_width = w, in_height = h,
       in_fans = [\<lparr> fan_x = Some 10, fan_y = Some 10, fan_strength = Undefined \<rparr>],
       in_windows = [], in_occupants = [],
       in_outdoor = \<lparr> out_co2 = Undefined, out_temp = Undefined \<rparr> \<rparr>"

section \<open>Tables\<close>

lemma length_tabulate2: "length (tabulate2 r c g) = r"
  by (simp add: tabulate2_def)

lemma length_tabulate2_row: "y < r \<Longrightarrow> length (tabulate2 r c g ! y) = c"
  by (simp add: tabulate2_def)

lemma tabulate2_nth: "y < r \<Longrightarrow> x < c \<Longrightarrow> tabulate2 r c g ! y ! x = g y x"
  by (simp add: tabulate2_def)

lemma make2D_nth: "y < r \<Longrightarrow> x < c \<Longrightarrow> make2D r c v ! y ! x = v"
  by (simp add: make2D_def)

lemma concat_tabulate2:
  "concat (map (\<lambda>y. map (g y) cs) rs) = map (\<lambda>(y, x). g y x) (List.product rs cs)"
  by (induction rs) (simp_all add: comp_def)

section \<open>Bilinear sampling\<close>

lemma sampleScalar_integer:
  assumes "y < length fld" and "x < length (fld ! 0)"
  shows "sampleScalar fld (real x) (real y) = fld ! y ! x"
proof -
  have cx: "clamp (real x) 0 (real (length (fld ! 0)) - 1) = real x"
    using assms by (simp add: clamp_def min_def max_def)
  have cy: "clamp (real y) 0 (real (length fld) - 1) = real y"
    using assms by (simp add: clamp_def min_def max_def)
  show ?thesis
    by (simp add: sampleScalar_def Let_def cx cy lerp_def)
qed

text \<open>
  C6. In a rectangular field, the bilinear sample at a point whose coordinates are the
  integers \<open>x\<close> (a column of the field) and \<open>y\<close> (a row of it) is the value stored at
  the cell \<open>(y, x)\<close>: both interpolation weights are zero.
\<close>

theorem sampleScalar_exact_at_integer:
  assumes "y < length fld" and "x < length (fld ! 0)"
    and "\<forall>r \<in> set fld. length r = length (fld ! 0)"
  shows "sampleScalar fld (real x) (real y) = fld ! y ! x"
  using assms(1,2) by (rule sampleScalar_integer)

theorem sampleScalar_exact_witness:
  "sampleScalar [[1, 2], [3, 4]] 1 1 = 4"
  using sampleScalar_exact_at_integer [of 1 "[[1, 2], [3, 4]]" 1] by simp

section \<open>The velocity field: windows\<close>

lemma wallDir_cases:
  "wallDir e wx wy =
     (if wx \<le> width e - wx \<and> wx \<le> wy \<and> wx \<le> height e - wy then (1, 0)
      else if width e - wx \<le> wy \<and> width e - wx \<le> height e - wy then (-1, 0)
      else if wy \<le> height e - wy then (0, 1)
      else (0, -1))"
  unfolding wallDir_def Let_def by (auto simp: min_def)

lemma windowFlow_nth:
  assumes "y < rows" and "x < cols"
  shows "fst (windowFlow e win v) ! y ! x =
           (if velBand e win y x
            then fst v ! y ! x + fst (wallDir e (orZero (win_x win)) (orZero (win_y win))) * WINDOW_FLOW *
                   (if isFinite (win_open win) then clamp (num (win_open win)) 0 1 else 1)
            else fst v ! y ! x)"
    and "snd (windowFlow e win v) ! y ! x =
           (if velBand e win y x
            then snd v ! y ! x + snd (wallDir e (orZero (win_x win)) (orZero (win_y win))) * WINDOW_FLOW *
                   (if isFinite (win_open win) then clamp (num (win_open win)) 0 1 else 1)
            else snd v ! y ! x)"
  using assms by (simp_all add: windowFlow_def Let_def tabulate2_nth)

text \<open>
  C7. The wall of a window centred at \<open>(wx, wy)\<close> is chosen from its distances
  \<open>wx\<close>, \<open>width - wx\<close>, \<open>wy\<close> and \<open>height - wy\<close> to the left, right, top and
  bottom walls: left when its distance is least (ties included), else right when its
  distance is least of the other three, else top when it is no farther than bottom, else
  bottom. The direction is the unit vector pointing from that wall into the room, and it
  is the direction of the velocity that the window adds to every cell of its band (in a
  room of nonzero width and height, where the band is the code's).
\<close>

theorem nearest_wall_left_priority:
  "wallDir e wx wy =
     (if wx \<le> width e - wx \<and> wx \<le> wy \<and> wx \<le> height e - wy then (1, 0)
      else if width e - wx \<le> wy \<and> width e - wx \<le> height e - wy then (-1, 0)
      else if wy \<le> height e - wy then (0, 1)
      else (0, -1))
   \<and> (width e \<noteq> 0 \<and> height e \<noteq> 0 \<and> y < rows \<and> x < cols \<and> velBand e win y x \<longrightarrow>
        fst (windowFlow e win v) ! y ! x =
          fst v ! y ! x + fst (wallDir e (orZero (win_x win)) (orZero (win_y win))) * WINDOW_FLOW *
            (if isFinite (win_open win) then clamp (num (win_open win)) 0 1 else 1)
      \<and> snd (windowFlow e win v) ! y ! x =
          snd v ! y ! x + snd (wallDir e (orZero (win_x win)) (orZero (win_y win))) * WINDOW_FLOW *
            (if isFinite (win_open win) then clamp (num (win_open win)) 0 1 else 1))"
  using wallDir_cases [of e wx wy] windowFlow_nth [of y x e win v] by simp

text \<open>A window in the middle of a square room is as near to every wall: left wins.\<close>

theorem nearest_wall_witness:
  "wallDir (room 500 500 [] [] []) 250 250 = (1, 0)
   \<and> velBand (room 500 500 [] [] []) (centreWindow Undefined) 14 22
   \<and> fst (windowFlow (room 500 500 [] [] []) (centreWindow Undefined) still) ! 14 ! 22 = 2.2"
proof -
  let ?e = "room 500 500 [] [] []"
  let ?w = "centreWindow Undefined"
  have b: "velBand ?e ?w 14 22"
    by (simp add: velBand_def room_def centreWindow_def pxToGX_def pxToGY_def rows_def cols_def)
  have r: "(14::nat) < rows" "(22::nat) < cols" "width ?e \<noteq> 0" "height ?e \<noteq> 0"
    by (simp_all add: rows_def cols_def room_def)
  from nearest_wall_left_priority [of ?e 250 250 14 22 ?w still] b r
  show ?thesis
    by (simp add: room_def centreWindow_def still_def make2D_nth WINDOW_FLOW_def)
qed

section \<open>The velocity field: fans\<close>

lemma fanPush_nth:
  assumes "y < rows" and "x < cols"
  shows "fst (fanPush e f v) ! y ! x =
           fst v ! y ! x +
             (real x - pxToGX e (orZero (fan_x f))) /
               ((real x - pxToGX e (orZero (fan_x f))) * (real x - pxToGX e (orZero (fan_x f))) +
                (real y - pxToGY e (orZero (fan_y f))) * (real y - pxToGY e (orZero (fan_y f))) + 6)
             * FAN_STRENGTH * (if isFinite (fan_strength f) then num (fan_strength f) else 1)"
    and "snd (fanPush e f v) ! y ! x =
           snd v ! y ! x +
             (real y - pxToGY e (orZero (fan_y f))) /
               ((real x - pxToGX e (orZero (fan_x f))) * (real x - pxToGX e (orZero (fan_x f))) +
                (real y - pxToGY e (orZero (fan_y f))) * (real y - pxToGY e (orZero (fan_y f))) + 6)
             * FAN_STRENGTH * (if isFinite (fan_strength f) then num (fan_strength f) else 1)"
  using assms by (simp_all add: fanPush_def Let_def tabulate2_nth)

lemma computeVelocity_cornerFan:
  "computeVelocity (room 800 500 [cornerFan] [] []) =
     fanPush (room 800 500 [cornerFan] [] []) cornerFan still"
  by (simp add: computeVelocity_def room_def still_def)

text \<open>
  C5, as the code has it. In a room of nonzero width and height, for every fan and every
  cell \<open>(y, x)\<close> of the grid, the pass of the fan adds to the velocity the vector whose x component is
  \<open>dx / (dx\<^sup>2 + dy\<^sup>2 + 6) * FAN_STRENGTH * strength\<close> and whose y component is
  \<open>dy / (dx\<^sup>2 + dy\<^sup>2 + 6) * FAN_STRENGTH * strength\<close>, where \<open>dx\<close> and \<open>dy\<close> are
  the offsets of the cell from the fan's grid position and \<open>strength\<close> is the fan's
  strength when that is finite and 1 otherwise. The two components share one denominator,
  the squared distance plus 6: neither is computed from its own offset alone.
\<close>

theorem fan_push_radial:
  "width e \<noteq> 0 \<and> height e \<noteq> 0 \<and> y < rows \<and> x < cols \<longrightarrow>
     fst (fanPush e f v) ! y ! x =
       fst v ! y ! x +
         (real x - pxToGX e (orZero (fan_x f))) /
           ((real x - pxToGX e (orZero (fan_x f))) * (real x - pxToGX e (orZero (fan_x f))) +
            (real y - pxToGY e (orZero (fan_y f))) * (real y - pxToGY e (orZero (fan_y f))) + 6)
         * FAN_STRENGTH * (if isFinite (fan_strength f) then num (fan_strength f) else 1)
   \<and> snd (fanPush e f v) ! y ! x =
       snd v ! y ! x +
         (real y - pxToGY e (orZero (fan_y f))) /
           ((real x - pxToGX e (orZero (fan_x f))) * (real x - pxToGX e (orZero (fan_x f))) +
            (real y - pxToGY e (orZero (fan_y f))) * (real y - pxToGY e (orZero (fan_y f))) + 6)
         * FAN_STRENGTH * (if isFinite (fan_strength f) then num (fan_strength f) else 1)"
  using fanPush_nth [of y x e f v] by simp

theorem fan_push_radial_witness:
  "(1::nat) < rows \<and> (1::nat) < cols \<and>
   fst (fanPush (room 800 500 [cornerFan] [] []) cornerFan still) ! 1 ! 1 = 7 / 20 \<and>
   snd (fanPush (room 800 500 [cornerFan] [] []) cornerFan still) ! 1 ! 1 = 7 / 20"
proof -
  have r: "(1::nat) < rows" "(1::nat) < cols" by (simp_all add: rows_def cols_def)
  have d: "width (room 800 500 [cornerFan] [] []) \<noteq> 0"
    "height (room 800 500 [cornerFan] [] []) \<noteq> 0"
    by (simp_all add: room_def)
  from fan_push_radial [of "room 800 500 [cornerFan] [] []" 1 1 cornerFan still] r d
  show ?thesis
    by (simp add: still_def make2D_nth pxToGX_def pxToGY_def cornerFan_def FAN_STRENGTH_def)
qed

text \<open>
  C5 as the claim words it fails. A fan of strength 1 in the corner \<open>(0, 0)\<close> of the
  default room sits at the grid position \<open>(0, 0)\<close>; the cell \<open>(1, 1)\<close> has the
  offsets 1 and 1. The x component of the velocity there is \<open>1 / 8 * 2.8 = 7 / 20\<close>, not
  the \<open>offset / (offset\<^sup>2 + 6) * FAN_STRENGTH * strength = 1 / 7 * 2.8\<close> of the claim.
\<close>

theorem fan_push_not_per_axis:
  "fst (computeVelocity (room 800 500 [cornerFan] [] [])) ! 1 ! 1 = 7 / 20
   \<and> fst (computeVelocity (room 800 500 [cornerFan] [] [])) ! 1 ! 1
       \<noteq> ((1 - pxToGX (room 800 500 [cornerFan] [] []) 0) /
            ((1 - pxToGX (room 800 500 [cornerFan] [] []) 0) *
             (1 - pxToGX (room 800 500 [cornerFan] [] []) 0) + 6))
           * FAN_STRENGTH * 1"
proof -
  have r: "(1::nat) < rows" "(1::nat) < cols" by (simp_all add: rows_def cols_def)
  have "fst (computeVelocity (room 800 500 [cornerFan] [] [])) ! 1 ! 1 = 7 / 20"
    unfolding computeVelocity_cornerFan
    using fanPush_nth(1) [OF r, of "room 800 500 [cornerFan] [] []" cornerFan still] r
    by (simp add: still_def make2D_nth pxToGX_def pxToGY_def cornerFan_def FAN_STRENGTH_def)
  then show ?thesis
    by (simp add: pxToGX_def FAN_STRENGTH_def)
qed

section \<open>The returned statistics\<close>

lemma foldl_accumulate_sums:
  "sumCO2 (foldl (accumulate s) a xs) = sumCO2 a + sum_list (map (\<lambda>yx. co2 s ! fst yx ! snd yx) xs)"
  "sumV (foldl (accumulate s) a xs) = sumV a + sum_list (map (\<lambda>yx. virus s ! fst yx ! snd yx) xs)"
  "sumT (foldl (accumulate s) a xs) = sumT a + sum_list (map (\<lambda>yx. temp s ! fst yx ! snd yx) xs)"
  by (induction xs arbitrary: a) (simp_all add: accumulate_def Let_def)

lemma concat_packGrid:
  "concat (packGrid s) =
     map (\<lambda>(y, x). \<lparr> cell_co2 = co2 s ! y ! x, cell_virus = virus s ! y ! x,
                       cell_temp = temp s ! y ! x \<rparr>)
       (List.product [0..<rows] [0..<cols])"
  unfolding packGrid_def tabulate2_def by (rule concat_tabulate2)

lemma cells_of_packGrid:
  "map cell_co2 (concat (packGrid s)) =
     map (\<lambda>yx. co2 s ! fst yx ! snd yx) (List.product [0..<rows] [0..<cols])"
  "map cell_virus (concat (packGrid s)) =
     map (\<lambda>yx. virus s ! fst yx ! snd yx) (List.product [0..<rows] [0..<cols])"
  "map cell_temp (concat (packGrid s)) =
     map (\<lambda>yx. temp s ! fst yx ! snd yx) (List.product [0..<rows] [0..<cols])"
  by (simp_all add: concat_packGrid comp_def case_prod_beta)

lemma length_concat_packGrid: "length (concat (packGrid s)) = rows * cols"
  by (simp add: concat_packGrid)

text \<open>
  C3. The averages of the returned statistics are the arithmetic means of the returned
  grid: each is the sum of the field's values over all cells of the grid, divided by the
  number of cells, which is \<open>rows * cols\<close>.
\<close>

theorem stats_are_grid_means:
  "avgCO2 (result_stats (simulate inp)) =
     sum_list (map cell_co2 (concat (grid (simulate inp)))) / real (length (concat (grid (simulate inp))))
   \<and> avgVirus (result_stats (simulate inp)) =
     sum_list (map cell_virus (concat (grid (simulate inp)))) / real (length (concat (grid (simulate inp))))
   \<and> avgTemp (result_stats (simulate inp)) =
     sum_list (map cell_temp (concat (grid (simulate inp)))) / real (length (concat (grid (simulate inp))))
   \<and> length (concat (grid (simulate inp))) = rows * cols"
  by (simp add: simulate_def Let_def packSums_def foldl_accumulate_sums length_concat_packGrid
      cells_of_packGrid)

section \<open>The optimizer's search\<close>

lemma toFixed3_rounds:
  assumes "\<bar>v\<bar> < 10 ^ 21"
  shows "\<exists>n::int. toFixed3 v = real_of_int n / 1000" and "\<bar>toFixed3 v - v\<bar> \<le> 1 / 2000"
proof -
  have near: "\<bar>real_of_int \<lfloor>m * 1000 + 1 / 2\<rfloor> / 1000 - m\<bar> \<le> 1 / 2000" for m :: real
  proof -
    define z where "z = real_of_int \<lfloor>m * 1000 + 1 / 2\<rfloor>"
    have "z \<le> m * 1000 + 1 / 2" and "m * 1000 + 1 / 2 < z + 1"
      unfolding z_def by linarith+
    then have "\<bar>z / 1000 - m\<bar> \<le> 1 / 2000" by linarith
    then show ?thesis by (simp add: z_def)
  qed
  show "\<exists>n::int. toFixed3 v = real_of_int n / 1000"
  proof (cases "v < 0")
    case True
    with assms have "toFixed3 v = real_of_int (- \<lfloor>- v * 1000 + 1 / 2\<rfloor>) / 1000"
      by (simp add: toFixed3_def Let_def)
    then show ?thesis by blast
  next
    case False
    with assms have "toFixed3 v = real_of_int \<lfloor>v * 1000 + 1 / 2\<rfloor> / 1000"
      by (simp add: toFixed3_def Let_def)
    then show ?thesis by blast
  qed
  show "\<bar>toFixed3 v - v\<bar> \<le> 1 / 2000"
  proof (cases "v < 0")
    case True
    with assms have "toFixed3 v = - (real_of_int \<lfloor>- v * 1000 + 1 / 2\<rfloor> / 1000)"
      by (simp add: toFixed3_def Let_def)
    with near [of "- v"] show ?thesis by linarith
  next
    case False
    with assms have "toFixed3 v = real_of_int \<lfloor>v * 1000 + 1 / 2\<rfloor> / 1000"
      by (simp add: toFixed3_def Let_def)
    with near [of v] show ?thesis by linarith
  qed
qed

lemma tryFan_None:
  "bestScore b = None \<Longrightarrow> tryFan rnd inp b i = winner rnd inp i"
  by (simp add: tryFan_def winner_def trialScore_def Let_def)

lemma tryFan_winner:
  "tryFan rnd inp (winner rnd inp k) i =
     (if trialScore rnd inp i < trialScore rnd inp k then winner rnd inp i else winner rnd inp k)"
  by (simp add: tryFan_def winner_def trialScore_def Let_def)

lemma search_first_minimum:
  assumes "bestScore b = None"
  shows "\<exists>k\<le>n. foldl (tryFan rnd inp) b [0..<Suc n] = winner rnd inp k
           \<and> (\<forall>j\<le>n. trialScore rnd inp k \<le> trialScore rnd inp j)
           \<and> (\<forall>j<k. trialScore rnd inp k < trialScore rnd inp j)"
proof (induction n)
  case 0
  show ?case using assms by (simp add: tryFan_None)
next
  case (Suc n)
  then obtain k where k: "k \<le> n" "foldl (tryFan rnd inp) b [0..<Suc n] = winner rnd inp k"
    "\<forall>j\<le>n. trialScore rnd inp k \<le> trialScore rnd inp j"
    "\<forall>j<k. trialScore rnd inp k < trialScore rnd inp j"
    by blast
  have f: "foldl (tryFan rnd inp) b [0..<Suc (Suc n)] =
             tryFan rnd inp (winner rnd inp k) (Suc n)"
    using k(2) by simp
  show ?case
  proof (cases "trialScore rnd inp (Suc n) < trialScore rnd inp k")
    case True
    have "\<forall>j\<le>Suc n. trialScore rnd inp (Suc n) \<le> trialScore rnd inp j"
      using True k(3) by (metis le_Suc_eq less_eq_real_def order_less_le_trans)
    moreover have "\<forall>j<Suc n. trialScore rnd inp (Suc n) < trialScore rnd inp j"
      using True k(3) by (metis less_Suc_eq_le order_less_le_trans)
    ultimately show ?thesis
      using f True by (intro exI [of _ "Suc n"]) (simp add: tryFan_winner)
  next
    case False
    have "\<forall>j\<le>Suc n. trialScore rnd inp k \<le> trialScore rnd inp j"
      using False k(3) by (metis le_Suc_eq not_less)
    then show ?thesis
      using f False k(1,4) by (intro exI [of _ k]) (simp add: tryFan_winner)
  qed
qed


text \<open>
  C4. In a room of nonzero width and height the optimizer runs 80 trials, each a
  simulation with the one fan of that trial, of strength 1. The search ends on a trial
  \<open>k\<close> whose score is least among the 80 and strictly below the score of every earlier
  trial: the first trial with the least score. The returned fan and statistics are those
  of trial \<open>k\<close>, and the returned score is that trial's score rounded to three decimal
  places (a multiple of \<open>1 / 1000\<close> at most \<open>1 / 2000\<close> away, for a score below
  \<open>10\<^sup>2\<^sup>1\<close> in magnitude). The unrounded best score is at most the score of the
  first trial.
\<close>

theorem optimizer_keeps_first_minimum:
  assumes "optWidth inp \<noteq> 0" and "optHeight inp \<noteq> 0"
  shows "TRIES = 80
    \<and> (\<forall>i. in_fans (trialInput rnd inp i) = [trialFan rnd inp i]
           \<and> fan_strength (trialFan rnd inp i) = Num 1)
    \<and> (\<exists>k<TRIES.
          (\<forall>j<TRIES. trialScore rnd inp k \<le> trialScore rnd inp j)
        \<and> (\<forall>j<k. trialScore rnd inp k < trialScore rnd inp j)
        \<and> searchFan rnd inp = winner rnd inp k
        \<and> bestFan (optimizeFan rnd inp) = trialFan rnd inp k
        \<and> score (optimizeFan rnd inp) = Some (toFixed3 (trialScore rnd inp k))
        \<and> opt_stats (optimizeFan rnd inp) = Some (trialStats rnd inp k)
        \<and> (\<bar>trialScore rnd inp k\<bar> < 10 ^ 21 \<longrightarrow>
              (\<exists>n::int. toFixed3 (trialScore rnd inp k) = real_of_int n / 1000)
            \<and> \<bar>toFixed3 (trialScore rnd inp k) - trialScore rnd inp k\<bar> \<le> 1 / 2000)
        \<and> trialScore rnd inp k \<le> trialScore rnd inp 0)"
proof -
  let ?b = "\<lparr> best = \<lparr> fan_x = Some (optWidth inp / 2), fan_y = Some (optHeight inp / 2),
                         fan_strength = Num 1.0 \<rparr>,
                bestScore = None, bestStats = None \<rparr>"
  have "bestScore ?b = None" by simp
  from search_first_minimum [OF this, of 79 rnd inp]
  obtain k where k: "k \<le> 79" "foldl (tryFan rnd inp) ?b [0..<Suc 79] = winner rnd inp k"
    "\<forall>j\<le>79. trialScore rnd inp k \<le> trialScore rnd inp j"
    "\<forall>j<k. trialScore rnd inp k < trialScore rnd inp j"
    by blast
  have t: "TRIES = Suc 79" by (simp add: TRIES_def)
  have s: "searchFan rnd inp = winner rnd inp k"
    unfolding searchFan_def t using k(2) .
  have r: "\<bar>trialScore rnd inp k\<bar> < 10 ^ 21 \<longrightarrow>
              (\<exists>n::int. toFixed3 (trialScore rnd inp k) = real_of_int n / 1000)
            \<and> \<bar>toFixed3 (trialScore rnd inp k) - trialScore rnd inp k\<bar> \<le> 1 / 2000"
    using toFixed3_rounds [of "trialScore rnd inp k"] by blast
  have m: "\<forall>j<TRIES. trialScore rnd inp k \<le> trialScore rnd inp j"
    using k(3) by (simp add: TRIES_def)
  have z: "trialScore rnd inp k \<le> trialScore rnd inp 0"
    using k(3) by simp
  have o: "bestFan (optimizeFan rnd inp) = trialFan rnd inp k"
    "score (optimizeFan rnd inp) = Some (toFixed3 (trialScore rnd inp k))"
    "opt_stats (optimizeFan rnd inp) = Some (trialStats rnd inp k)"
    by (simp_all add: optimizeFan_def s winner_def)
  have f: "\<forall>i. in_fans (trialInput rnd inp i) = [trialFan rnd inp i]
           \<and> fan_strength (trialFan rnd inp i) = Num 1"
    by (simp add: trialInput_def trialFan_def)
  have "k < TRIES" using k(1) by (simp add: TRIES_def)
  with m k(4) s o r z have "\<exists>k<TRIES.
          (\<forall>j<TRIES. trialScore rnd inp k \<le> trialScore rnd inp j)
        \<and> (\<forall>j<k. trialScore rnd inp k < trialScore rnd inp j)
        \<and> searchFan rnd inp = winner rnd inp k
        \<and> bestFan (optimizeFan rnd inp) = trialFan rnd inp k
        \<and> score (optimizeFan rnd inp) = Some (toFixed3 (trialScore rnd inp k))
        \<and> opt_stats (optimizeFan rnd inp) = Some (trialStats rnd inp k)
        \<and> (\<bar>trialScore rnd inp k\<bar> < 10 ^ 21 \<longrightarrow>
              (\<exists>n::int. toFixed3 (trialScore rnd inp k) = real_of_int n / 1000)
            \<and> \<bar>toFixed3 (trialScore rnd inp k) - trialScore rnd inp k\<bar> \<le> 1 / 2000)
        \<and> trialScore rnd inp k \<le> trialScore rnd inp 0"
    by blast
  with f show ?thesis by (simp add: TRIES_def)
qed

text \<open>With a constant random stream every trial scores the same: the first trial wins.\<close>

theorem optimizer_tie_witness:
  "optWidth (bareInput (Num 800) (Num 500)) \<noteq> 0
   \<and> optHeight (bareInput (Num 800) (Num 500)) \<noteq> 0
   \<and> searchFan (\<lambda>i. 1 / 2) (bareInput (Num 800) (Num 500)) =
       winner (\<lambda>i. 1 / 2) (bareInput (Num 800) (Num 500)) 0
   \<and> bestFan (optimizeFan (\<lambda>i. 1 / 2) (bareInput (Num 800) (Num 500))) =
       \<lparr> fan_x = Some 400, fan_y = Some 250, fan_strength = Num 1 \<rparr>"
proof -
  let ?rnd = "\<lambda>i::nat. 1 / 2 :: real"
  let ?inp = "bareInput (Num 800) (Num 500)"
  have d: "optWidth ?inp \<noteq> 0" "optHeight ?inp \<noteq> 0"
    by (simp_all add: optWidth_def optHeight_def bareInput_def)
  have same: "trialScore ?rnd ?inp i = trialScore ?rnd ?inp j" for i j
    by (simp add: trialScore_def trialStats_def trialInput_def trialFan_def)
  from optimizer_keeps_first_minimum [OF d, of ?rnd]
  obtain k where k: "\<forall>j<k. trialScore ?rnd ?inp k < trialScore ?rnd ?inp j"
    "searchFan ?rnd ?inp = winner ?rnd ?inp k"
    "bestFan (optimizeFan ?rnd ?inp) = trialFan ?rnd ?inp k"
    by blast
  have "k = 0"
  proof (rule ccontr)
    assume "k \<noteq> 0"
    then have "trialScore ?rnd ?inp k < trialScore ?rnd ?inp 0" using k(1) by simp
    with same [of k 0] show False by simp
  qed
  with k d show ?thesis
    by (simp add: trialFan_def optWidth_def optHeight_def bareInput_def)
qed

section \<open>The ventilation band\<close>

lemma ventWindow_nth:
  assumes "y < rows" and "x < cols"
  shows "co2 (ventWindow e win s) ! y ! x =
           (if ventBand e win y x
            then lerp (co2 s ! y ! x) (outdoorCO2 e)
                   (VENT_PULL * (if isFinite (win_open win) then clamp (num (win_open win)) 0 1 else 1))
            else co2 s ! y ! x)"
    and "virus (ventWindow e win s) ! y ! x =
           (if ventBand e win y x
            then lerp (virus s ! y ! x) outdoorVirus
                   (VENT_PULL * (if isFinite (win_open win) then clamp (num (win_open win)) 0 1 else 1))
            else virus s ! y ! x)"
    and "temp (ventWindow e win s) ! y ! x =
           (if ventBand e win y x
            then lerp (temp s ! y ! x) (outdoorTemp e)
                   (0.8 * (VENT_PULL * (if isFinite (win_open win) then clamp (num (win_open win)) 0 1 else 1)))
            else temp s ! y ! x)"
  using assms by (simp_all add: ventWindow_def Let_def tabulate2_nth mult.commute)

lemma velBand_ventBand: "velBand e win y x \<Longrightarrow> ventBand e win y x"
  by (simp add: velBand_def ventBand_def Let_def)

lemma band_shapes:
  "velBand e win y x \<longleftrightarrow>
     \<bar>real x - pxToGX e (orZero (win_x win))\<bar>
       \<le> (if isFinite (win_w win) then num (win_w win) else 120) / width e * (real cols - 1) * 0.5
     \<and> \<bar>real y - pxToGY e (orZero (win_y win))\<bar> \<le> 2.2"
  "ventBand e win y x \<longleftrightarrow>
     \<bar>real x - pxToGX e (orZero (win_x win))\<bar>
       \<le> (if isFinite (win_w win) then num (win_w win) else 120) / width e * (real cols - 1) * 0.5
     \<and> \<bar>real y - pxToGY e (orZero (win_y win))\<bar> \<le> 2.8"
  by (simp_all add: velBand_def ventBand_def Let_def)

text \<open>
  C1, as the code has it. In a room of nonzero width and height, the ventilation pass of
  a window applies its sink to the cells
  \<open>(y, x)\<close> with \<open>\<bar>x - gx\<bar> \<le> half\<close> and \<open>\<bar>y - gy\<bar> \<le> 2.8\<close>; the velocity pass
  injects into the cells with \<open>\<bar>x - gx\<bar> \<le> half\<close> and \<open>\<bar>y - gy\<bar> \<le> 2.2\<close>, for the
  same centre \<open>(gx, gy)\<close> and the same half-width. So the sink's band contains the band
  of the injection. A cell of the sink's band gets
  \<open>lerp current outdoor (VENT_PULL * open)\<close> for CO2 and virus and
  \<open>lerp current outdoor (0.8 * (VENT_PULL * open))\<close> for temperature, where \<open>open\<close>
  is the sanitised open fraction; every other cell keeps its value.
\<close>

theorem vent_band_contains_velocity_band:
  "width e \<noteq> 0 \<and> height e \<noteq> 0 \<longrightarrow>
   (velBand e win y x \<longrightarrow> ventBand e win y x)
   \<and> (velBand e win y x \<longleftrightarrow>
        \<bar>real x - pxToGX e (orZero (win_x win))\<bar>
          \<le> (if isFinite (win_w win) then num (win_w win) else 120) / width e * (real cols - 1) * 0.5
        \<and> \<bar>real y - pxToGY e (orZero (win_y win))\<bar> \<le> 2.2)
   \<and> (ventBand e win y x \<longleftrightarrow>
        \<bar>real x - pxToGX e (orZero (win_x win))\<bar>
          \<le> (if isFinite (win_w win) then num (win_w win) else 120) / width e * (real cols - 1) * 0.5
        \<and> \<bar>real y - pxToGY e (orZero (win_y win))\<bar> \<le> 2.8)
   \<and> (y < rows \<and> x < cols \<longrightarrow>
        co2 (ventWindow e win s) ! y ! x =
           (if ventBand e win y x
            then lerp (co2 s ! y ! x) (outdoorCO2 e)
                   (VENT_PULL * (if isFinite (win_open win) then clamp (num (win_open win)) 0 1 else 1))
            else co2 s ! y ! x)
      \<and> virus (ventWindow e win s) ! y ! x =
           (if ventBand e win y x
            then lerp (virus s ! y ! x) outdoorVirus
                   (VENT_PULL * (if isFinite (win_open win) then clamp (num (win_open win)) 0 1 else 1))
            else virus s ! y ! x)
      \<and> temp (ventWindow e win s) ! y ! x =
           (if ventBand e win y x
            then lerp (temp s ! y ! x) (outdoorTemp e)
                   (0.8 * (VENT_PULL * (if isFinite (win_open win) then clamp (num (win_open win)) 0 1 else 1)))
            else temp s ! y ! x))"
  using velBand_ventBand [of e win y x] band_shapes [of e win y x] ventWindow_nth [of y x e win s]
  by blast

theorem vent_band_witness:
  "velBand (room 500 500 [] [] []) (centreWindow Undefined) 14 22
   \<and> ventBand (room 500 500 [] [] []) (centreWindow Undefined) 14 22
   \<and> (14::nat) < rows \<and> (22::nat) < cols
   \<and> co2 (ventWindow (room 500 500 [] [] []) (centreWindow Undefined)
        (initFields (room 500 500 [] [] []))) ! 14 ! 22 = 972
   \<and> temp (ventWindow (room 500 500 [] [] []) (centreWindow Undefined)
        (initFields (room 500 500 [] [] []))) ! 14 ! 22 = 21 + (10 - 21) * (0.8 * 0.08)"
proof -
  let ?e = "room 500 500 [] [] []"
  let ?w = "centreWindow Undefined"
  have b: "velBand ?e ?w 14 22"
    by (simp add: velBand_def room_def centreWindow_def pxToGX_def pxToGY_def rows_def cols_def)
  have r: "(14::nat) < rows" "(22::nat) < cols" "width ?e \<noteq> 0" "height ?e \<noteq> 0"
    by (simp_all add: rows_def cols_def room_def)
  from vent_band_contains_velocity_band [of ?e ?w 14 22 "initFields ?e"] b r
  have "ventBand ?e ?w 14 22"
    and "co2 (ventWindow ?e ?w (initFields ?e)) ! 14 ! 22 =
           lerp (co2 (initFields ?e) ! 14 ! 22) (outdoorCO2 ?e)
             (VENT_PULL * (if isFinite (win_open ?w) then clamp (num (win_open ?w)) 0 1 else 1))"
    and "temp (ventWindow ?e ?w (initFields ?e)) ! 14 ! 22 =
           lerp (temp (initFields ?e) ! 14 ! 22) (outdoorTemp ?e)
             (0.8 * (VENT_PULL * (if isFinite (win_open ?w) then clamp (num (win_open ?w)) 0 1 else 1)))"
    by simp_all
  with b r show ?thesis
    by (simp add: initFields_def make2D_nth room_def centreWindow_def lerp_def VENT_PULL_def)
qed

text \<open>
  C1 as the claim words it fails: the two bands are not the same. For a window in the
  middle of a 500 by 500 room (grid position \<open>(21.5, 13.5)\<close>) the cell in row 16 and
  column 21 is 2.5 rows from the centre. The sink pulls its CO2 from 1020 to 972, but the
  velocity pass adds nothing there, while it adds 2.2 in row 14 of the same column.
\<close>

theorem vent_band_is_taller:
  "ventBand (room 500 500 [] [] []) (centreWindow Undefined) 16 21
   \<and> \<not> velBand (room 500 500 [] [] []) (centreWindow Undefined) 16 21
   \<and> co2 (initFields (room 500 500 [] [] [])) ! 16 ! 21 = 1020
   \<and> co2 (ventWindow (room 500 500 [] [] []) (centreWindow Undefined)
        (initFields (room 500 500 [] [] []))) ! 16 ! 21 = 972
   \<and> fst (windowFlow (room 500 500 [] [] []) (centreWindow Undefined) still) ! 16 ! 21 = 0
   \<and> snd (windowFlow (room 500 500 [] [] []) (centreWindow Undefined) still) ! 16 ! 21 = 0
   \<and> fst (windowFlow (room 500 500 [] [] []) (centreWindow Undefined) still) ! 14 ! 21 = 2.2"
proof -
  let ?e = "room 500 500 [] [] []"
  let ?w = "centreWindow Undefined"
  have r: "(16::nat) < rows" "(21::nat) < cols" "(14::nat) < rows" by (simp_all add: rows_def cols_def)
  have b: "ventBand ?e ?w 16 21" "\<not> velBand ?e ?w 16 21" "velBand ?e ?w 14 21"
    by (simp_all add: velBand_def ventBand_def room_def centreWindow_def pxToGX_def pxToGY_def
        rows_def cols_def)
  have d: "wallDir ?e 250 250 = (1, 0)"
    by (simp add: wallDir_def room_def)
  show ?thesis
    using b d
    by (simp add: ventWindow_nth [OF r(1,2)] windowFlow_nth [OF r(1,2)] windowFlow_nth [OF r(3,2)]
        initFields_def still_def make2D_nth r room_def centreWindow_def lerp_def VENT_PULL_def
        WINDOW_FLOW_def)
qed

section \<open>The open fraction of a window\<close>

text \<open>
  C10. In a room of nonzero width and height, a window whose open fraction is absent or
  not finite is treated as fully open by both passes: in its velocity band the injection
  is \<open>direction * WINDOW_FLOW * 1\<close>, and in its ventilation band the fields are pulled
  with the factor \<open>VENT_PULL * 1\<close> (temperature with 0.8 times that). A window
  whose open fraction is the finite number \<open>r\<close> is treated by both passes as open by
  \<open>r\<close> clamped into \<open>[0, 1]\<close>: 0 for \<open>r \<le> 0\<close>, 1 for \<open>r \<ge> 1\<close>, and \<open>r\<close>
  itself in between. It is never rejected.
\<close>

theorem window_open_sanitised:
  "width e \<noteq> 0 \<and> height e \<noteq> 0 \<and> y < rows \<and> x < cols \<longrightarrow>
   (\<not> isFinite (win_open win) \<longrightarrow>
      fst (windowFlow e win v) ! y ! x =
        (if velBand e win y x
         then fst v ! y ! x + fst (wallDir e (orZero (win_x win)) (orZero (win_y win))) * WINDOW_FLOW * 1
         else fst v ! y ! x)
    \<and> snd (windowFlow e win v) ! y ! x =
        (if velBand e win y x
         then snd v ! y ! x + snd (wallDir e (orZero (win_x win)) (orZero (win_y win))) * WINDOW_FLOW * 1
         else snd v ! y ! x)
    \<and> co2 (ventWindow e win s) ! y ! x =
        (if ventBand e win y x then lerp (co2 s ! y ! x) (outdoorCO2 e) (VENT_PULL * 1)
         else co2 s ! y ! x)
    \<and> virus (ventWindow e win s) ! y ! x =
        (if ventBand e win y x then lerp (virus s ! y ! x) outdoorVirus (VENT_PULL * 1)
         else virus s ! y ! x)
    \<and> temp (ventWindow e win s) ! y ! x =
        (if ventBand e win y x then lerp (temp s ! y ! x) (outdoorTemp e) (0.8 * (VENT_PULL * 1))
         else temp s ! y ! x))
   \<and> (win_open win = Num r \<longrightarrow>
      0 \<le> clamp r 0 1 \<and> clamp r 0 1 \<le> 1
    \<and> (r \<le> 0 \<longrightarrow> clamp r 0 1 = 0)
    \<and> (1 \<le> r \<longrightarrow> clamp r 0 1 = 1)
    \<and> (0 \<le> r \<and> r \<le> 1 \<longrightarrow> clamp r 0 1 = r)
    \<and> fst (windowFlow e win v) ! y ! x =
        (if velBand e win y x
         then fst v ! y ! x +
                fst (wallDir e (orZero (win_x win)) (orZero (win_y win))) * WINDOW_FLOW * clamp r 0 1
         else fst v ! y ! x)
    \<and> snd (windowFlow e win v) ! y ! x =
        (if velBand e win y x
         then snd v ! y ! x +
                snd (wallDir e (orZero (win_x win)) (orZero (win_y win))) * WINDOW_FLOW * clamp r 0 1
         else snd v ! y ! x)
    \<and> co2 (ventWindow e win s) ! y ! x =
        (if ventBand e win y x then lerp (co2 s ! y ! x) (outdoorCO2 e) (VENT_PULL * clamp r 0 1)
         else co2 s ! y ! x)
    \<and> virus (ventWindow e win s) ! y ! x =
        (if ventBand e win y x then lerp (virus s ! y ! x) outdoorVirus (VENT_PULL * clamp r 0 1)
         else virus s ! y ! x)
    \<and> temp (ventWindow e win s) ! y ! x =
        (if ventBand e win y x
         then lerp (temp s ! y ! x) (outdoorTemp e) (0.8 * (VENT_PULL * clamp r 0 1))
         else temp s ! y ! x))"
proof (intro impI conjI)
  assume a: "width e \<noteq> 0 \<and> height e \<noteq> 0 \<and> y < rows \<and> x < cols"
  then have yx: "y < rows" "x < cols" by simp_all
  note cell = windowFlow_nth [OF yx, of e win v] ventWindow_nth [OF yx, of e win s]
  {
    assume n: "\<not> isFinite (win_open win)"
    show "fst (windowFlow e win v) ! y ! x =
        (if velBand e win y x
         then fst v ! y ! x + fst (wallDir e (orZero (win_x win)) (orZero (win_y win))) * WINDOW_FLOW * 1
         else fst v ! y ! x)"
      and "snd (windowFlow e win v) ! y ! x =
        (if velBand e win y x
         then snd v ! y ! x + snd (wallDir e (orZero (win_x win)) (orZero (win_y win))) * WINDOW_FLOW * 1
         else snd v ! y ! x)"
      and "co2 (ventWindow e win s) ! y ! x =
        (if ventBand e win y x then lerp (co2 s ! y ! x) (outdoorCO2 e) (VENT_PULL * 1)
         else co2 s ! y ! x)"
      and "virus (ventWindow e win s) ! y ! x =
        (if ventBand e win y x then lerp (virus s ! y ! x) outdoorVirus (VENT_PULL * 1)
         else virus s ! y ! x)"
      and "temp (ventWindow e win s) ! y ! x =
        (if ventBand e win y x then lerp (temp s ! y ! x) (outdoorTemp e) (0.8 * (VENT_PULL * 1))
         else temp s ! y ! x)"
      using n by (simp_all add: cell)
  }
  {
    assume f: "win_open win = Num r"
    show "0 \<le> clamp r 0 1" and "clamp r 0 1 \<le> 1"
      by (simp_all add: clamp_def)
    show "clamp r 0 1 = 0" if "r \<le> 0" using that by (simp add: clamp_def)
    show "clamp r 0 1 = 1" if "1 \<le> r" using that by (simp add: clamp_def)
    show "clamp r 0 1 = r" if "0 \<le> r \<and> r \<le> 1" using that by (simp add: clamp_def)
    show "fst (windowFlow e win v) ! y ! x =
        (if velBand e win y x
         then fst v ! y ! x +
                fst (wallDir e (orZero (win_x win)) (orZero (win_y win))) * WINDOW_FLOW * clamp r 0 1
         else fst v ! y ! x)"
      and "snd (windowFlow e win v) ! y ! x =
        (if velBand e win y x
         then snd v ! y ! x +
                snd (wallDir e (orZero (win_x win)) (orZero (win_y win))) * WINDOW_FLOW * clamp r 0 1
         else snd v ! y ! x)"
      and "co2 (ventWindow e win s) ! y ! x =
        (if ventBand e win y x then lerp (co2 s ! y ! x) (outdoorCO2 e) (VENT_PULL * clamp r 0 1)
         else co2 s ! y ! x)"
      and "virus (ventWindow e win s) ! y ! x =
        (if ventBand e win y x then lerp (virus s ! y ! x) outdoorVirus (VENT_PULL * clamp r 0 1)
         else virus s ! y ! x)"
      and "temp (ventWindow e win s) ! y ! x =
        (if ventBand e win y x
         then lerp (temp s ! y ! x) (outdoorTemp e) (0.8 * (VENT_PULL * clamp r 0 1))
         else temp s ! y ! x)"
      using f by (simp_all add: cell)
  }
qed

text \<open>
  A window in the middle of a 500 by 500 room, at a cell of both its bands: with open
  fraction NaN or 7 it injects 2.2 and pulls CO2 from 1020 to 972, with open fraction
  \<open>-3\<close> it injects nothing and pulls nothing, with open fraction \<open>1 / 2\<close> half of
  each.
\<close>

theorem window_open_witness:
  "fst (windowFlow (room 500 500 [] [] []) (centreWindow NaN) still) ! 14 ! 22 = 2.2
   \<and> co2 (ventWindow (room 500 500 [] [] []) (centreWindow NaN)
        (initFields (room 500 500 [] [] []))) ! 14 ! 22 = 972
   \<and> fst (windowFlow (room 500 500 [] [] []) (centreWindow (Num 7)) still) ! 14 ! 22 = 2.2
   \<and> co2 (ventWindow (room 500 500 [] [] []) (centreWindow (Num 7))
        (initFields (room 500 500 [] [] []))) ! 14 ! 22 = 972
   \<and> fst (windowFlow (room 500 500 [] [] []) (centreWindow (Num (- 3))) still) ! 14 ! 22 = 0
   \<and> co2 (ventWindow (room 500 500 [] [] []) (centreWindow (Num (- 3)))
        (initFields (room 500 500 [] [] []))) ! 14 ! 22 = 1020
   \<and> fst (windowFlow (room 500 500 [] [] []) (centreWindow (Num (1 / 2))) still) ! 14 ! 22 = 1.1
   \<and> co2 (ventWindow (room 500 500 [] [] []) (centreWindow (Num (1 / 2)))
        (initFields (room 500 500 [] [] []))) ! 14 ! 22 = 996"
proof -
  let ?e = "room 500 500 [] [] []"
  let ?s = "initFields ?e"
  have r: "width ?e \<noteq> 0 \<and> height ?e \<noteq> 0 \<and> (14::nat) < rows \<and> (22::nat) < cols"
    by (simp add: rows_def cols_def room_def)
  have b: "velBand ?e (centreWindow op) 14 22" "ventBand ?e (centreWindow op) 14 22" for op
    by (simp_all add: velBand_def ventBand_def room_def centreWindow_def pxToGX_def pxToGY_def
        rows_def cols_def)
  have d: "wallDir ?e 250 250 = (1, 0)" by (simp add: wallDir_def room_def)
  have i: "co2 ?s ! 14 ! 22 = 1020" "fst still ! 14 ! 22 = 0" "outdoorCO2 ?e = 420"
    using r by (simp_all add: initFields_def still_def make2D_nth room_def)
  have n: "\<not> isFinite (win_open (centreWindow NaN))" by (simp add: centreWindow_def)
  have o: "win_open (centreWindow (Num q)) = Num q" "win_x (centreWindow op) = Some 250"
    "win_y (centreWindow op) = Some 250" for q op
    by (simp_all add: centreWindow_def)
  from window_open_sanitised [where e = ?e and y = 14 and x = 22 and win = "centreWindow NaN"
      and v = still and s = ?s] r n
  have "fst (windowFlow ?e (centreWindow NaN) still) ! 14 ! 22 = 2.2"
    "co2 (ventWindow ?e (centreWindow NaN) ?s) ! 14 ! 22 = 972"
    by (simp_all add: b d i o lerp_def WINDOW_FLOW_def VENT_PULL_def)
  moreover
  from window_open_sanitised [where e = ?e and y = 14 and x = 22 and win = "centreWindow (Num 7)"
      and r = 7 and v = still and s = ?s] r
  have "fst (windowFlow ?e (centreWindow (Num 7)) still) ! 14 ! 22 = 2.2"
    "co2 (ventWindow ?e (centreWindow (Num 7)) ?s) ! 14 ! 22 = 972"
    by (simp_all add: b d i o lerp_def clamp_def WINDOW_FLOW_def VENT_PULL_def)
  moreover
  from window_open_sanitised [where e = ?e and y = 14 and x = 22
      and win = "centreWindow (Num (- 3))" and r = "- 3" and v = still and s = ?s] r
  have "fst (windowFlow ?e (centreWindow (Num (- 3))) still) ! 14 ! 22 = 0"
    "co2 (ventWindow ?e (centreWindow (Num (- 3))) ?s) ! 14 ! 22 = 1020"
    by (simp_all add: b d i o lerp_def clamp_def WINDOW_FLOW_def VENT_PULL_def)
  moreover
  from window_open_sanitised [where e = ?e and y = 14 and x = 22
      and win = "centreWindow (Num (1 / 2))" and r = "1 / 2" and v = still and s = ?s] r
  have "fst (windowFlow ?e (centreWindow (Num (1 / 2))) still) ! 14 ! 22 = 1.1"
    "co2 (ventWindow ?e (centreWindow (Num (1 / 2))) ?s) ! 14 ! 22 = 996"
    by (simp_all add: b d i o lerp_def clamp_def WINDOW_FLOW_def VENT_PULL_def)
  ultimately show ?thesis by simp
qed

section \<open>Clamped ranges\<close>

lemma clamp_bounds: "lo \<le> hi \<Longrightarrow> lo \<le> clamp v lo hi \<and> clamp v lo hi \<le> hi"
  by (simp add: clamp_def)

lemma cellsIn_clamp:
  "lo \<le> hi \<Longrightarrow> cellsIn lo hi (tabulate2 rows cols (\<lambda>y x. clamp (g y x) lo hi))"
  by (simp add: cellsIn_def length_tabulate2 length_tabulate2_row tabulate2_nth clamp_bounds)

lemma clampFields_cellsIn:
  "outdoorCO2 e \<le> 5000 \<Longrightarrow> cellsIn (outdoorCO2 e) 5000 (co2 (clampFields e s))"
  "cellsIn 0 1000 (virus (clampFields e s))"
  "cellsIn (- 10) 40 (temp (clampFields e s))"
  by (simp_all add: clampFields_def cellsIn_clamp)

lemma step_is_clamped:
  "step e s = clampFields e (applyVentilation e (applyOccupants e
      \<lparr> co2 = diffuse (advect (co2 s) (fst (computeVelocity e)) (snd (computeVelocity e))),
        virus = diffuse (advect (virus s) (fst (computeVelocity e)) (snd (computeVelocity e))),
        temp = diffuse (advect (temp s) (fst (computeVelocity e)) (snd (computeVelocity e))) \<rparr>))"
  by (simp add: step_def Let_def)

lemma step_cellsIn:
  "outdoorCO2 e \<le> 5000 \<Longrightarrow> cellsIn (outdoorCO2 e) 5000 (co2 (step e s))"
  "cellsIn 0 1000 (virus (step e s))"
  "cellsIn (- 10) 40 (temp (step e s))"
  unfolding step_is_clamped by (rule clampFields_cellsIn; assumption?)+

lemma packGrid_nth:
  "y < rows \<Longrightarrow> x < cols \<Longrightarrow>
     packGrid s ! y ! x =
       \<lparr> cell_co2 = co2 s ! y ! x, cell_virus = virus s ! y ! x, cell_temp = temp s ! y ! x \<rparr>"
  by (simp add: packGrid_def tabulate2_nth)

lemma grid_simulate:
  "grid (simulate inp) = packGrid (runSteps (mkEnv inp) STEPS (initFields (mkEnv inp)))"
  by (simp add: simulate_def Let_def)

text \<open>
  C2, as the code has it. For an input whose room has positive width and height, whose
  fans, windows and occupants are all at points of the room, and whose outdoor CO2 is
  between 0 and 5000, after every timestep (the first, the fortieth, and any number in
  between or beyond) each field is a \<open>rows\<close> by \<open>cols\<close> table with every CO2 cell
  in \<open>[outdoorCO2, 5000]\<close>, every virus cell in \<open>[0, 1000]\<close> and every temperature
  cell in \<open>[-10, 40]\<close>; the returned grid has the same shape and its cells the same
  ranges.
\<close>

theorem clamped_ranges_after_every_step:
  assumes "withinRoom (mkEnv inp)"
    and "0 \<le> outdoorCO2 (mkEnv inp)"
    and "outdoorCO2 (mkEnv inp) \<le> 5000"
  shows "(\<forall>n\<ge>1.
            cellsIn (outdoorCO2 (mkEnv inp)) 5000 (co2 (runSteps (mkEnv inp) n (initFields (mkEnv inp))))
          \<and> cellsIn 0 1000 (virus (runSteps (mkEnv inp) n (initFields (mkEnv inp))))
          \<and> cellsIn (- 10) 40 (temp (runSteps (mkEnv inp) n (initFields (mkEnv inp)))))
       \<and> length (grid (simulate inp)) = rows
       \<and> (\<forall>y<rows. length (grid (simulate inp) ! y) = cols
            \<and> (\<forall>x<cols.
                 outdoorCO2 (mkEnv inp) \<le> cell_co2 (grid (simulate inp) ! y ! x)
               \<and> cell_co2 (grid (simulate inp) ! y ! x) \<le> 5000
               \<and> 0 \<le> cell_virus (grid (simulate inp) ! y ! x)
               \<and> cell_virus (grid (simulate inp) ! y ! x) \<le> 1000
               \<and> - 10 \<le> cell_temp (grid (simulate inp) ! y ! x)
               \<and> cell_temp (grid (simulate inp) ! y ! x) \<le> 40))"
proof -
  let ?e = "mkEnv inp"
  have steps: "cellsIn (outdoorCO2 ?e) 5000 (co2 (runSteps ?e n (initFields ?e)))
          \<and> cellsIn 0 1000 (virus (runSteps ?e n (initFields ?e)))
          \<and> cellsIn (- 10) 40 (temp (runSteps ?e n (initFields ?e)))" if "1 \<le> n" for n
  proof -
    from that obtain m where "n = Suc m" by (cases n) simp_all
    then show ?thesis using assms(3) by (simp add: step_cellsIn)
  qed
  have "(1::nat) \<le> STEPS" by (simp add: STEPS_def)
  from steps [OF this] have fin:
    "cellsIn (outdoorCO2 ?e) 5000 (co2 (runSteps ?e STEPS (initFields ?e)))"
    "cellsIn 0 1000 (virus (runSteps ?e STEPS (initFields ?e)))"
    "cellsIn (- 10) 40 (temp (runSteps ?e STEPS (initFields ?e)))"
    by simp_all
  have shape: "length (grid (simulate inp)) = rows"
    "\<forall>y<rows. length (grid (simulate inp) ! y) = cols"
    by (simp_all add: grid_simulate packGrid_def length_tabulate2 length_tabulate2_row)
  have cells: "\<forall>y<rows. \<forall>x<cols.
                 outdoorCO2 ?e \<le> cell_co2 (grid (simulate inp) ! y ! x)
               \<and> cell_co2 (grid (simulate inp) ! y ! x) \<le> 5000
               \<and> 0 \<le> cell_virus (grid (simulate inp) ! y ! x)
               \<and> cell_virus (grid (simulate inp) ! y ! x) \<le> 1000
               \<and> - 10 \<le> cell_temp (grid (simulate inp) ! y ! x)
               \<and> cell_temp (grid (simulate inp) ! y ! x) \<le> 40"
    using fin by (simp add: grid_simulate packGrid_nth cellsIn_def)
  from steps shape cells show ?thesis by blast
qed

text \<open>A default room with a fan, an open window on the left wall and an occupant.\<close>

theorem clamped_ranges_witness:
  "withinRoom (mkEnv (busyInput Undefined Undefined))
   \<and> 0 \<le> outdoorCO2 (mkEnv (busyInput Undefined Undefined))
   \<and> outdoorCO2 (mkEnv (busyInput Undefined Undefined)) \<le> 5000
   \<and> cellsIn 450 5000
       (co2 (runSteps (mkEnv (busyInput Undefined Undefined)) 40
          (initFields (mkEnv (busyInput Undefined Undefined)))))
   \<and> 450 \<le> cell_co2 (grid (simulate (busyInput Undefined Undefined)) ! 27 ! 43)
   \<and> cell_co2 (grid (simulate (busyInput Undefined Undefined)) ! 27 ! 43) \<le> 5000
   \<and> cell_temp (grid (simulate (busyInput Undefined Undefined)) ! 13 ! 0) \<le> 40"
proof -
  let ?inp = "busyInput Undefined Undefined"
  have h: "withinRoom (mkEnv ?inp)" "0 \<le> outdoorCO2 (mkEnv ?inp)"
    "outdoorCO2 (mkEnv ?inp) \<le> 5000"
    by (simp_all add: withinRoom_def inside_def mkEnv_def busyInput_def)
  have o: "outdoorCO2 (mkEnv ?inp) = 450" by (simp add: mkEnv_def busyInput_def)
  have r: "(27::nat) < rows" "(43::nat) < cols" "(13::nat) < rows" "(0::nat) < cols"
    by (simp_all add: rows_def cols_def)
  from clamped_ranges_after_every_step [OF h] r h show ?thesis
    unfolding o by simp
qed

text \<open>
  C2 as the claim words it fails for a finite input whose outdoor CO2 is above 5000: the
  clamp \<open>max outdoorCO2 (min 5000 v)\<close> then returns \<open>outdoorCO2\<close>. With outdoor CO2
  6000 in an empty default room, the cell \<open>(0, 0)\<close> holds 6000 after the first step
  and in the returned grid.
\<close>

theorem co2_above_5000_when_outdoor_is:
  "cell_co2 (grid (simulate (outdoorInput (Num 6000))) ! 0 ! 0) = 6000
   \<and> \<not> cell_co2 (grid (simulate (outdoorInput (Num 6000))) ! 0 ! 0) \<le> 5000
   \<and> co2 (runSteps (mkEnv (outdoorInput (Num 6000))) 1 (initFields (mkEnv (outdoorInput (Num 6000)))))
        ! 0 ! 0 = 6000"
proof -
  let ?e = "mkEnv (outdoorInput (Num 6000))"
  have r: "(0::nat) < rows" "(0::nat) < cols" by (simp_all add: rows_def cols_def)
  have o: "outdoorCO2 ?e = 6000" by (simp add: mkEnv_def outdoorInput_def)
  have c: "co2 (step ?e s) ! 0 ! 0 = 6000" for s
    unfolding step_is_clamped by (simp add: clampFields_def tabulate2_nth r o clamp_def)
  have st: "STEPS = Suc 39" by (simp add: STEPS_def)
  have "co2 (runSteps ?e STEPS (initFields ?e)) ! 0 ! 0 = 6000"
    unfolding st runSteps.simps by (rule c)
  moreover have "co2 (runSteps ?e 1 (initFields ?e)) ! 0 ! 0 = 6000"
    by (simp add: c)
  ultimately show ?thesis
    by (simp add: grid_simulate packGrid_nth r)
qed

section \<open>Lower bounds through transport\<close>

lemma rows_pos: "0 < rows" by (simp add: rows_def)
lemma cols_pos: "0 < cols" by (simp add: cols_def)

lemma cellsSat_tabulate2:
  "(\<And>y x. y < rows \<Longrightarrow> x < cols \<Longrightarrow> P (g y x)) \<Longrightarrow> cellsSat P (tabulate2 rows cols g)"
  by (simp add: cellsSat_def length_tabulate2 length_tabulate2_row tabulate2_nth)

lemma cellsSat_nth: "cellsSat P f \<Longrightarrow> y < rows \<Longrightarrow> x < cols \<Longrightarrow> P (f ! y ! x)"
  by (simp add: cellsSat_def)

lemma cellsSat_mono: "cellsSat P f \<Longrightarrow> (\<And>v. P v \<Longrightarrow> Q v) \<Longrightarrow> cellsSat Q f"
  by (simp add: cellsSat_def)

lemma cellsSat_make2D: "P v \<Longrightarrow> cellsSat P (make2D rows cols v)"
  by (simp add: cellsSat_def make2D_def)

lemma lerp_lower:
  assumes "L \<le> a" and "L \<le> b" and "0 \<le> t" and "t \<le> 1"
  shows "L \<le> lerp a b t"
proof -
  have "(1 - t) * L \<le> (1 - t) * a" using assms by (intro mult_left_mono) simp_all
  moreover have "t * L \<le> t * b" using assms by (intro mult_left_mono) simp_all
  moreover have "lerp a b t = (1 - t) * a + t * b" by (simp add: lerp_def algebra_simps)
  moreover have "L = (1 - t) * L + t * L" by (simp add: algebra_simps)
  ultimately show ?thesis by linarith
qed

lemma clamped_index:
  assumes "0 < n"
  shows "nat (clamp i 0 (int n - 1)) < n"
  using assms by (auto simp: clamp_def min_def max_def)

lemma sampleScalar_lower:
  assumes "cellsSat (\<lambda>v. L \<le> v) fld"
  shows "L \<le> sampleScalar fld X Y"
proof -
  have len: "length fld = rows" "length (fld ! 0) = cols"
    using assms rows_pos by (simp_all add: cellsSat_def)
  define xc where "xc = clamp X 0 (real cols - 1)"
  define yc where "yc = clamp Y 0 (real rows - 1)"
  have xcb: "0 \<le> xc" "xc \<le> real cols - 1"
    using cols_pos by (simp_all add: xc_def clamp_def)
  have ycb: "0 \<le> yc" "yc \<le> real rows - 1"
    using rows_pos by (simp_all add: yc_def clamp_def)
  have x0: "nat \<lfloor>xc\<rfloor> < cols"
    using xcb cols_pos by (simp add: nat_less_iff floor_less_iff)
  have y0: "nat \<lfloor>yc\<rfloor> < rows"
    using ycb rows_pos by (simp add: nat_less_iff floor_less_iff)
  have x1: "nat (clamp (\<lfloor>xc\<rfloor> + 1) 0 (int cols - 1)) < cols"
    using cols_pos by (rule clamped_index)
  have y1: "nat (clamp (\<lfloor>yc\<rfloor> + 1) 0 (int rows - 1)) < rows"
    using rows_pos by (rule clamped_index)
  have tx: "0 \<le> xc - real_of_int \<lfloor>xc\<rfloor>" "xc - real_of_int \<lfloor>xc\<rfloor> \<le> 1"
    by linarith+
  have ty: "0 \<le> yc - real_of_int \<lfloor>yc\<rfloor>" "yc - real_of_int \<lfloor>yc\<rfloor> \<le> 1"
    by linarith+
  note c = cellsSat_nth [OF assms]
  have "L \<le> lerp
      (lerp (fld ! nat \<lfloor>yc\<rfloor> ! nat \<lfloor>xc\<rfloor>)
            (fld ! nat \<lfloor>yc\<rfloor> ! nat (clamp (\<lfloor>xc\<rfloor> + 1) 0 (int cols - 1)))
            (xc - real_of_int \<lfloor>xc\<rfloor>))
      (lerp (fld ! nat (clamp (\<lfloor>yc\<rfloor> + 1) 0 (int rows - 1)) ! nat \<lfloor>xc\<rfloor>)
            (fld ! nat (clamp (\<lfloor>yc\<rfloor> + 1) 0 (int rows - 1)) !
               nat (clamp (\<lfloor>xc\<rfloor> + 1) 0 (int cols - 1)))
            (xc - real_of_int \<lfloor>xc\<rfloor>))
      (yc - real_of_int \<lfloor>yc\<rfloor>)"
    by (intro lerp_lower c x0 y0 x1 y1 tx ty)
  then show ?thesis
    by (simp add: sampleScalar_def Let_def len xc_def yc_def)
qed

lemma advect_lower:
  "cellsSat (\<lambda>v. L \<le> v) fld \<Longrightarrow> cellsSat (\<lambda>v. L \<le> v) (advect fld vx vy)"
  unfolding advect_def Let_def by (intro cellsSat_tabulate2 sampleScalar_lower)

lemma diffuse_lower:
  assumes "cellsSat (\<lambda>v. L \<le> v) fld"
  shows "cellsSat (\<lambda>v. L \<le> v) (diffuse fld)"
  unfolding diffuse_def Let_def
proof (intro cellsSat_tabulate2 lerp_lower)
  fix y x assume yx: "y < rows" "x < cols"
  note c = cellsSat_nth [OF assms]
  show "L \<le> fld ! y ! x" using yx by (rule c)
  have "L \<le> fld ! nat (clamp (int y - 1) 0 (int rows - 1)) ! x"
    "L \<le> fld ! nat (clamp (int y + 1) 0 (int rows - 1)) ! x"
    "L \<le> fld ! y ! nat (clamp (int x - 1) 0 (int cols - 1))"
    "L \<le> fld ! y ! nat (clamp (int x + 1) 0 (int cols - 1))"
    using yx clamped_index [OF rows_pos] clamped_index [OF cols_pos] by (simp_all add: c)
  then show "L \<le> (fld ! nat (clamp (int y - 1) 0 (int rows - 1)) ! x +
            fld ! nat (clamp (int y + 1) 0 (int rows - 1)) ! x +
            fld ! y ! nat (clamp (int x - 1) 0 (int cols - 1)) +
            fld ! y ! nat (clamp (int x + 1) 0 (int cols - 1))) * 0.25"
    by simp
  show "0 \<le> DIFF" "DIFF \<le> 1" by (simp_all add: DIFF_def)
qed

section \<open>Lower bounds through a timestep\<close>

lemma intensity_pos:
  "0 < (if isFinite i then clamp (num i) 0.2 3.0 else (1.0::real))"
  by (simp add: clamp_def max_def min_def)

lemma occupantEmit_raises:
  "cellsSat (\<lambda>v. L \<le> v) (co2 s) \<Longrightarrow> cellsSat (\<lambda>v. L < v) (co2 (occupantEmit e p s))"
  "cellsSat (\<lambda>v. L \<le> v) (virus s) \<Longrightarrow> cellsSat (\<lambda>v. L < v) (virus (occupantEmit e p s))"
  "cellsSat (\<lambda>v. L \<le> v) (temp s) \<Longrightarrow> cellsSat (\<lambda>v. L < v) (temp (occupantEmit e p s))"
proof -
  have pos: "0 < k * (if isFinite (occ_intensity p) then clamp (num (occ_intensity p)) 0.2 3.0 else 1.0)
               * exp z" if "0 < k" for k z :: real
    using that intensity_pos [of "occ_intensity p"] by simp
  have up: "L < a + b" if "L \<le> a" "0 < b" for a b :: real using that by linarith
  show "cellsSat (\<lambda>v. L \<le> v) (co2 s) \<Longrightarrow> cellsSat (\<lambda>v. L < v) (co2 (occupantEmit e p s))"
    unfolding occupantEmit_def Let_def fields.simps
    by (intro cellsSat_tabulate2 up cellsSat_nth [where P = "\<lambda>v. L \<le> v"] pos)
      (simp_all add: CO2_EMIT_def)
  show "cellsSat (\<lambda>v. L \<le> v) (virus s) \<Longrightarrow> cellsSat (\<lambda>v. L < v) (virus (occupantEmit e p s))"
    unfolding occupantEmit_def Let_def fields.simps
    by (intro cellsSat_tabulate2 up cellsSat_nth [where P = "\<lambda>v. L \<le> v"] pos)
      (simp_all add: VIRUS_EMIT_def)
  show "cellsSat (\<lambda>v. L \<le> v) (temp s) \<Longrightarrow> cellsSat (\<lambda>v. L < v) (temp (occupantEmit e p s))"
    unfolding occupantEmit_def Let_def fields.simps
    by (intro cellsSat_tabulate2 up cellsSat_nth [where P = "\<lambda>v. L \<le> v"] pos)
      (simp_all add: HEAT_EMIT_def)
qed

lemma clampFields_keeps_above:
  "cellsSat (\<lambda>v. L < v) (co2 s) \<Longrightarrow> L < 5000 \<Longrightarrow> cellsSat (\<lambda>v. L < v) (co2 (clampFields e s))"
  "cellsSat (\<lambda>v. L < v) (virus s) \<Longrightarrow> L < 1000 \<Longrightarrow> cellsSat (\<lambda>v. L < v) (virus (clampFields e s))"
  "cellsSat (\<lambda>v. L < v) (temp s) \<Longrightarrow> L < 40 \<Longrightarrow> cellsSat (\<lambda>v. L < v) (temp (clampFields e s))"
  by (auto simp: clampFields_def clamp_def intro!: cellsSat_tabulate2 dest: cellsSat_nth)

lemma step_raises:
  assumes "windows e = []" and "occupants e = [p]"
  shows "cellsSat (\<lambda>v. L \<le> v) (co2 s) \<Longrightarrow> L < 5000 \<Longrightarrow> cellsSat (\<lambda>v. L < v) (co2 (step e s))"
    and "cellsSat (\<lambda>v. L \<le> v) (virus s) \<Longrightarrow> L < 1000 \<Longrightarrow> cellsSat (\<lambda>v. L < v) (virus (step e s))"
    and "cellsSat (\<lambda>v. L \<le> v) (temp s) \<Longrightarrow> L < 40 \<Longrightarrow> cellsSat (\<lambda>v. L < v) (temp (step e s))"
  unfolding step_is_clamped
  by (simp_all add: assms applyVentilation_def applyOccupants_def clampFields_keeps_above
      occupantEmit_raises diffuse_lower advect_lower)

lemma step_keeps_lower:
  assumes "windows e = []" and "occupants e = [p]"
  shows "cellsSat (\<lambda>v. L \<le> v) (co2 s) \<Longrightarrow> L < 5000 \<Longrightarrow> cellsSat (\<lambda>v. L \<le> v) (co2 (step e s))"
    and "cellsSat (\<lambda>v. L \<le> v) (virus s) \<Longrightarrow> L < 1000 \<Longrightarrow> cellsSat (\<lambda>v. L \<le> v) (virus (step e s))"
    and "cellsSat (\<lambda>v. L \<le> v) (temp s) \<Longrightarrow> L < 40 \<Longrightarrow> cellsSat (\<lambda>v. L \<le> v) (temp (step e s))"
  by (rule cellsSat_mono [OF step_raises(1) [OF assms]], assumption+, simp)
    (rule cellsSat_mono [OF step_raises(2) [OF assms]], assumption+, simp,
     rule cellsSat_mono [OF step_raises(3) [OF assms]], assumption+, simp)

lemma runSteps_keeps_lower:
  assumes "windows e = []" and "occupants e = [p]"
    and "cellsSat (\<lambda>v. Lc \<le> v) (co2 s)" and "Lc < 5000"
    and "cellsSat (\<lambda>v. Lv \<le> v) (virus s)" and "Lv < 1000"
    and "cellsSat (\<lambda>v. Lt \<le> v) (temp s)" and "Lt < 40"
  shows "cellsSat (\<lambda>v. Lc \<le> v) (co2 (runSteps e n s))
       \<and> cellsSat (\<lambda>v. Lv \<le> v) (virus (runSteps e n s))
       \<and> cellsSat (\<lambda>v. Lt \<le> v) (temp (runSteps e n s))"
proof (induction n)
  case 0
  show ?case using assms by simp
next
  case (Suc n)
  then show ?case
    using assms(4,6,8) by (simp add: step_keeps_lower [OF assms(1,2)])
qed

lemma runSteps_raises:
  assumes "windows e = []" and "occupants e = [p]"
    and "cellsSat (\<lambda>v. Lc \<le> v) (co2 s)" and "Lc < 5000"
    and "cellsSat (\<lambda>v. Lv \<le> v) (virus s)" and "Lv < 1000"
    and "cellsSat (\<lambda>v. Lt \<le> v) (temp s)" and "Lt < 40"
  shows "cellsSat (\<lambda>v. Lc < v) (co2 (runSteps e (Suc n) s))
       \<and> cellsSat (\<lambda>v. Lv < v) (virus (runSteps e (Suc n) s))
       \<and> cellsSat (\<lambda>v. Lt < v) (temp (runSteps e (Suc n) s))"
  using runSteps_keeps_lower [OF assms, of n] step_raises [OF assms(1,2), of _ "runSteps e n s"]
    assms(4,6,8)
  by simp

section \<open>Bounds on the statistics\<close>

lemma sum_list_lower:
  "(\<forall>x \<in> set xs. L \<le> f x) \<Longrightarrow> L * real (length xs) \<le> sum_list (map f xs)"
  by (induction xs) (auto simp: algebra_simps)

lemma sum_list_upper:
  "(\<forall>x \<in> set xs. f x \<le> U) \<Longrightarrow> sum_list (map f xs) \<le> U * real (length xs)"
  by (induction xs) (auto simp: algebra_simps)

lemma sum_list_strict_lower:
  "xs \<noteq> [] \<Longrightarrow> (\<forall>x \<in> set xs. L < f x) \<Longrightarrow> L * real (length xs) < sum_list (map f xs)"
proof (induction xs)
  case Nil
  then show ?case by simp
next
  case (Cons a xs)
  have "L * real (length xs) \<le> sum_list (map f xs)"
    using Cons.prems(2) by (intro sum_list_lower) auto
  moreover have "L < f a" using Cons.prems(2) by simp
  ultimately show ?case by (simp add: algebra_simps)
qed

lemma foldl_accumulate_maxV_mono:
  "maxV a \<le> maxV (foldl (accumulate s) a xs)"
proof (induction xs arbitrary: a)
  case Nil
  show ?case by simp
next
  case (Cons z xs)
  have "maxV a \<le> maxV (accumulate s a z)" by (simp add: accumulate_def Let_def)
  also have "\<dots> \<le> maxV (foldl (accumulate s) (accumulate s a z) xs)" by (rule Cons.IH)
  finally show ?case by simp
qed

lemma foldl_accumulate_maxV:
  "yx \<in> set xs \<Longrightarrow> virus s ! fst yx ! snd yx \<le> maxV (foldl (accumulate s) a xs)"
proof (induction xs arbitrary: a)
  case Nil
  then show ?case by simp
next
  case (Cons z xs)
  show ?case
  proof (cases "yx = z")
    case True
    have "virus s ! fst z ! snd z \<le> maxV (accumulate s a z)"
      by (simp add: accumulate_def Let_def)
    also have "\<dots> \<le> maxV (foldl (accumulate s) (accumulate s a z) xs)"
      by (rule foldl_accumulate_maxV_mono)
    finally show ?thesis using True by simp
  next
    case False
    with Cons.prems have "yx \<in> set xs" by simp
    from Cons.IH [OF this] show ?thesis by simp
  qed
qed

lemma cell_indices:
  "yx \<in> set (List.product [0..<rows] [0..<cols]) \<longleftrightarrow> fst yx < rows \<and> snd yx < cols"
  by (cases yx) simp

lemma cells_nonempty: "List.product [0..<rows] [0..<cols] \<noteq> []"
  using rows_pos cols_pos by (cases "[0..<rows]"; cases "[0..<cols]") simp_all

lemma packSums_bounds:
  "cellsSat (\<lambda>v. L < v) (co2 s) \<Longrightarrow> L * real (rows * cols) < sumCO2 (packSums s)"
  "cellsSat (\<lambda>v. v \<le> U) (co2 s) \<Longrightarrow> sumCO2 (packSums s) \<le> U * real (rows * cols)"
  "cellsSat (\<lambda>v. L \<le> v) (temp s) \<Longrightarrow> L * real (rows * cols) \<le> sumT (packSums s)"
  "cellsSat (\<lambda>v. L < v) (virus s) \<Longrightarrow> L < maxV (packSums s)"
proof -
  let ?cells = "List.product [0..<rows] [0..<cols]"
  have n: "length ?cells = rows * cols" by simp
  show "L * real (rows * cols) < sumCO2 (packSums s)" if "cellsSat (\<lambda>v. L < v) (co2 s)"
    using sum_list_strict_lower [OF cells_nonempty, of L "\<lambda>yx. co2 s ! fst yx ! snd yx"]
      cellsSat_nth [OF that]
    unfolding packSums_def foldl_accumulate_sums n by (simp add: cell_indices)
  show "sumCO2 (packSums s) \<le> U * real (rows * cols)" if "cellsSat (\<lambda>v. v \<le> U) (co2 s)"
    using sum_list_upper [of ?cells "\<lambda>yx. co2 s ! fst yx ! snd yx" U] cellsSat_nth [OF that]
    unfolding packSums_def foldl_accumulate_sums n by (simp add: cell_indices)
  show "L * real (rows * cols) \<le> sumT (packSums s)" if "cellsSat (\<lambda>v. L \<le> v) (temp s)"
    using sum_list_lower [of ?cells L "\<lambda>yx. temp s ! fst yx ! snd yx"] cellsSat_nth [OF that]
    unfolding packSums_def foldl_accumulate_sums n by (simp add: cell_indices)
  show "L < maxV (packSums s)" if "cellsSat (\<lambda>v. L < v) (virus s)"
  proof -
    have "(0, 0) \<in> set ?cells" using rows_pos cols_pos by simp
    from foldl_accumulate_maxV [OF this]
    have "virus s ! 0 ! 0 \<le> maxV (packSums s)" by (simp add: packSums_def)
    moreover have "L < virus s ! 0 ! 0" using cellsSat_nth [OF that rows_pos cols_pos] .
    ultimately show ?thesis by linarith
  qed
qed

lemma cellsIn_upper: "cellsIn lo hi f \<Longrightarrow> cellsSat (\<lambda>v. v \<le> hi) f"
  by (simp add: cellsIn_def cellsSat_def)

text \<open>
  C8. For width 800, height 500, no fans, no windows, one occupant of intensity 1 at
  \<open>(400, 250)\<close> and the default outdoor baseline, the returned statistics have
  \<open>1020 < avgCO2 \<le> 5000\<close>, \<open>0 < maxVirus\<close> and \<open>21 \<le> avgTemp\<close>.
\<close>

theorem one_occupant_scenario:
  "1020 < avgCO2 (result_stats (simulate oneOccupant))
   \<and> avgCO2 (result_stats (simulate oneOccupant)) \<le> 5000
   \<and> 0 < maxVirus (result_stats (simulate oneOccupant))
   \<and> 21 \<le> avgTemp (result_stats (simulate oneOccupant))"
proof -
  let ?e = "mkEnv oneOccupant"
  let ?p = "\<lparr> occ_x = Some 400, occ_y = Some 250, occ_intensity = Num 1 \<rparr>"
  let ?s = "runSteps ?e STEPS (initFields ?e)"
  have e: "windows ?e = []" "occupants ?e = [?p]" "outdoorCO2 ?e = 420"
    by (simp_all add: mkEnv_def oneOccupant_def CO2_LIMITS_outdoor_def)
  have i: "cellsSat (\<lambda>v. 1020 \<le> v) (co2 (initFields ?e))"
    "cellsSat (\<lambda>v. 0 \<le> v) (virus (initFields ?e))"
    "cellsSat (\<lambda>v. 21 \<le> v) (temp (initFields ?e))"
    by (simp_all add: initFields_def e cellsSat_make2D)
  have st: "STEPS = Suc 39" by (simp add: STEPS_def)
  from runSteps_raises [OF e(1,2) i(1) _ i(2) _ i(3), of 39]
  have up: "cellsSat (\<lambda>v. 1020 < v) (co2 ?s)" "cellsSat (\<lambda>v. 0 < v) (virus ?s)"
    "cellsSat (\<lambda>v. 21 < v) (temp ?s)"
    unfolding st by simp_all
  have "cellsIn (outdoorCO2 ?e) 5000 (co2 ?s)"
    unfolding st runSteps.simps by (rule step_cellsIn) (simp add: e)
  then have hi: "cellsSat (\<lambda>v. v \<le> 5000) (co2 ?s)" by (rule cellsIn_upper)
  have t: "cellsSat (\<lambda>v. 21 \<le> v) (temp ?s)"
    using up(3) by (rule cellsSat_mono) simp
  have n: "0 < real (rows * cols)" using rows_pos cols_pos by simp
  have "1020 * real (rows * cols) < sumCO2 (packSums ?s)"
    "sumCO2 (packSums ?s) \<le> 5000 * real (rows * cols)"
    "21 * real (rows * cols) \<le> sumT (packSums ?s)"
    "0 < maxV (packSums ?s)"
    using packSums_bounds(1) [OF up(1)] packSums_bounds(2) [OF hi] packSums_bounds(3) [OF t]
      packSums_bounds(4) [OF up(2)]
    by simp_all
  with n show ?thesis
    by (simp add: simulate_def Let_def pos_less_divide_eq pos_divide_le_eq pos_le_divide_eq
        del: of_nat_mult)
qed

section \<open>The simulation over JavaScript's numbers follows the reals\<close>

lemma js_sub_Num [simp]: "js_sub (Num a) (Num b) = Num (a - b)"
  by (simp add: js_sub_def)

lemma js_min_Num [simp]: "js_min (Num a) (Num b) = Num (min a b)"
  by (simp add: js_min_def min_def)

lemma js_max_Num [simp]: "js_max (Num a) (Num b) = Num (max a b)"
  by (simp add: js_max_def max_def)

lemma js_clamp_Num [simp]: "js_clamp (Num v) (Num a) (Num b) = Num (clamp v a b)"
  by (simp add: js_clamp_def clamp_def)

lemma js_lerp_Num [simp]: "js_lerp (Num a) (Num b) (Num t) = Num (lerp a b t)"
  by (simp add: js_lerp_def lerp_def)

lemma js_div_Num: "b \<noteq> 0 \<Longrightarrow> js_div (Num a) (Num b) = Num (a / b)"
  by simp

lemma thenE_Inr [simp]: "thenE (Inr v) f = f v"
  by (simp add: thenE_def)

lemma thenE_Inl [simp]: "thenE (Inl e) f = Inl e"
  by (simp add: thenE_def)

lemma sequenceE_Inr: "sequenceE (map Inr xs) = Inr xs"
  by (induction xs) simp_all

lemma tabulate2E_Inr: "tabulate2E r c (\<lambda>y x. Inr (g y x)) = Inr (tabulate2 r c g)"
proof -
  have row: "sequenceE (map (\<lambda>x. Inr (g y x)) [0..<c]) = Inr (map (g y) [0..<c])" for y
    using sequenceE_Inr [of "map (g y) [0..<c]"] by (simp add: comp_def)
  have "sequenceE (map (\<lambda>y. Inr (map (g y) [0..<c])) [0..<r]) =
          Inr (map (\<lambda>y. map (g y) [0..<c]) [0..<r])"
    using sequenceE_Inr [of "map (\<lambda>y. map (g y) [0..<c]) [0..<r]"] by (simp add: comp_def)
  then show ?thesis by (simp add: tabulate2E_def tabulate2_def row)
qed

lemma tabulate2_cong:
  "(\<And>y x. y < r \<Longrightarrow> x < c \<Longrightarrow> g y x = h y x) \<Longrightarrow> tabulate2 r c g = tabulate2 r c h"
  by (simp add: tabulate2_def)

lemma tabulate2E_cong:
  assumes "\<And>y x. y < r \<Longrightarrow> x < c \<Longrightarrow> g y x = h y x"
  shows "tabulate2E r c g = tabulate2E r c h"
  unfolding tabulate2E_def
  by (rule arg_cong [where f = sequenceE], rule map_cong [OF refl],
      rule arg_cong [where f = sequenceE], rule map_cong [OF refl])
    (simp add: assms)

lemma liftF_tabulate2: "liftF (tabulate2 r c g) = tabulate2 r c (\<lambda>y x. Num (g y x))"
  by (simp add: liftF_def tabulate2_def comp_def)

lemma liftF_make2D: "liftF (make2D r c v) = make2D r c (Num v)"
  by (simp add: liftF_def make2D_def)

lemma liftF_nth:
  "cellsSat P f \<Longrightarrow> y < rows \<Longrightarrow> x < cols \<Longrightarrow> liftF f ! y ! x = Num (f ! y ! x)"
  by (simp add: liftF_def cellsSat_def)

lemma shaped_tabulate2: "cellsSat (\<lambda>_. True) (tabulate2 rows cols g)"
  by (rule cellsSat_tabulate2) simp

lemma js_pxToG:
  "width e \<noteq> 0 \<Longrightarrow> js_pxToGX e px = Num (pxToGX e px)"
  "height e \<noteq> 0 \<Longrightarrow> js_pxToGY e px = Num (pxToGY e px)"
  by (simp_all add: js_pxToGX_def js_pxToGY_def pxToGX_def pxToGY_def)

lemma d2_pos: "(a::real) * a + b * b + 6 \<noteq> 0"
proof -
  have "0 \<le> a * a" "0 \<le> b * b" by simp_all
  then show ?thesis by linarith
qed

lemma js_fanPush_lift:
  assumes "width e \<noteq> 0" and "height e \<noteq> 0"
    and "cellsSat (\<lambda>_. True) (fst v)" and "cellsSat (\<lambda>_. True) (snd v)"
  shows "js_fanPush e f (liftV v) = liftV (fanPush e f v)"
  unfolding js_fanPush_def fanPush_def liftV_def Let_def fst_conv snd_conv liftF_tabulate2
  by (intro arg_cong2 [where f = Pair] tabulate2_cong)
    (simp_all add: js_pxToG assms liftF_nth [OF assms(3)] liftF_nth [OF assms(4)] d2_pos)

lemma js_velBand_eq:
  "width e \<noteq> 0 \<Longrightarrow> height e \<noteq> 0 \<Longrightarrow> js_velBand e win y x = velBand e win y x"
  by (simp add: js_velBand_def velBand_def js_pxToG Let_def)

lemma js_ventBand_eq:
  "width e \<noteq> 0 \<Longrightarrow> height e \<noteq> 0 \<Longrightarrow> js_ventBand e win y x = ventBand e win y x"
  by (simp add: js_ventBand_def ventBand_def js_pxToG Let_def)

lemma js_windowFlow_lift:
  assumes "width e \<noteq> 0" and "height e \<noteq> 0"
    and "cellsSat (\<lambda>_. True) (fst v)" and "cellsSat (\<lambda>_. True) (snd v)"
  shows "js_windowFlow e win (liftV v) = liftV (windowFlow e win v)"
  unfolding js_windowFlow_def windowFlow_def liftV_def Let_def fst_conv snd_conv liftF_tabulate2
  by (intro arg_cong2 [where f = Pair] tabulate2_cong)
    (simp_all add: js_velBand_eq assms liftF_nth [OF assms(3)] liftF_nth [OF assms(4)])

lemma shaped_fanPush:
  "cellsSat (\<lambda>_. True) (fst (fanPush e f v))" "cellsSat (\<lambda>_. True) (snd (fanPush e f v))"
  by (simp_all add: fanPush_def Let_def shaped_tabulate2)

lemma shaped_windowFlow:
  "cellsSat (\<lambda>_. True) (fst (windowFlow e win v))" "cellsSat (\<lambda>_. True) (snd (windowFlow e win v))"
  by (simp_all add: windowFlow_def Let_def shaped_tabulate2)

lemma fans_lift:
  assumes "width e \<noteq> 0" and "height e \<noteq> 0"
  shows "cellsSat (\<lambda>_. True) (fst v) \<Longrightarrow> cellsSat (\<lambda>_. True) (snd v) \<Longrightarrow>
     foldl (\<lambda>v f. js_fanPush e f v) (liftV v) fs = liftV (foldl (\<lambda>v f. fanPush e f v) v fs)
     \<and> cellsSat (\<lambda>_. True) (fst (foldl (\<lambda>v f. fanPush e f v) v fs))
     \<and> cellsSat (\<lambda>_. True) (snd (foldl (\<lambda>v f. fanPush e f v) v fs))"
proof (induction fs arbitrary: v)
  case Nil
  then show ?case by simp
next
  case (Cons f fs)
  from Cons.IH [of "fanPush e f v"] shaped_fanPush [of e f v] show ?case
    by (simp add: js_fanPush_lift [OF assms Cons.prems])
qed

lemma windows_lift:
  assumes "width e \<noteq> 0" and "height e \<noteq> 0"
  shows "cellsSat (\<lambda>_. True) (fst v) \<Longrightarrow> cellsSat (\<lambda>_. True) (snd v) \<Longrightarrow>
     foldl (\<lambda>v w. js_windowFlow e w v) (liftV v) ws = liftV (foldl (\<lambda>v w. windowFlow e w v) v ws)
     \<and> cellsSat (\<lambda>_. True) (fst (foldl (\<lambda>v w. windowFlow e w v) v ws))
     \<and> cellsSat (\<lambda>_. True) (snd (foldl (\<lambda>v w. windowFlow e w v) v ws))"
proof (induction ws arbitrary: v)
  case Nil
  then show ?case by simp
next
  case (Cons w ws)
  from Cons.IH [of "windowFlow e w v"] shaped_windowFlow [of e w v] show ?case
    by (simp add: js_windowFlow_lift [OF assms Cons.prems])
qed

lemma js_computeVelocity_lift:
  assumes "width e \<noteq> 0" and "height e \<noteq> 0"
  shows "js_computeVelocity e = liftV (computeVelocity e)"
    and "cellsSat (\<lambda>_. True) (fst (computeVelocity e))"
    and "cellsSat (\<lambda>_. True) (snd (computeVelocity e))"
proof -
  let ?z = "(make2D rows cols (0::real), make2D rows cols (0::real))"
  have z: "cellsSat (\<lambda>_. True) (fst ?z)" "cellsSat (\<lambda>_. True) (snd ?z)"
    by (simp_all add: cellsSat_make2D)
  have lz: "(make2D rows cols (Num 0), make2D rows cols (Num 0)) = liftV ?z"
    by (simp add: liftV_def liftF_make2D)
  note f = fans_lift [OF assms z, of "fans e"]
  note w = windows_lift [OF assms, of "foldl (\<lambda>v f. fanPush e f v) ?z (fans e)" "windows e"]
  from f w show "js_computeVelocity e = liftV (computeVelocity e)"
    and "cellsSat (\<lambda>_. True) (fst (computeVelocity e))"
    and "cellsSat (\<lambda>_. True) (snd (computeVelocity e))"
    by (simp_all add: js_computeVelocity_def computeVelocity_def lz)
qed

lemma js_diffuse_lift:
  assumes "cellsSat P f"
  shows "js_diffuse (liftF f) = liftF (diffuse f)"
  unfolding js_diffuse_def diffuse_def Let_def liftF_tabulate2
proof (rule tabulate2_cong)
  fix y x assume yx: "y < rows" "x < cols"
  note n = liftF_nth [OF assms]
  have i: "nat (clamp (int y - 1) 0 (int rows - 1)) < rows"
    "nat (clamp (int y + 1) 0 (int rows - 1)) < rows"
    "nat (clamp (int x - 1) 0 (int cols - 1)) < cols"
    "nat (clamp (int x + 1) 0 (int cols - 1)) < cols"
    using clamped_index [OF rows_pos] clamped_index [OF cols_pos] by simp_all
  show "js_lerp (liftF f ! y ! x)
          (js_mul (js_add (js_add (js_add
             (liftF f ! nat (clamp (int y - 1) 0 (int rows - 1)) ! x)
             (liftF f ! nat (clamp (int y + 1) 0 (int rows - 1)) ! x))
             (liftF f ! y ! nat (clamp (int x - 1) 0 (int cols - 1))))
             (liftF f ! y ! nat (clamp (int x + 1) 0 (int cols - 1)))) (Num 0.25))
          (Num DIFF) =
        Num (lerp (f ! y ! x)
          ((f ! nat (clamp (int y - 1) 0 (int rows - 1)) ! x +
            f ! nat (clamp (int y + 1) 0 (int rows - 1)) ! x +
            f ! y ! nat (clamp (int x - 1) 0 (int cols - 1)) +
            f ! y ! nat (clamp (int x + 1) 0 (int cols - 1))) * 0.25) DIFF)"
    by (simp add: n yx i)
qed

lemma js_index_int:
  "js_index xs (Num (real_of_int k)) =
     (if 0 \<le> k \<and> k < int (length xs) then Some (xs ! nat k) else None)"
  by (auto simp: js_index_def)

lemma js_read_lift:
  assumes "cellsSat P f" and "0 \<le> i" and "nat i < rows" and "0 \<le> j" and "nat j < cols"
  shows "js_read (liftF f) (Num (real_of_int i)) (Num (real_of_int j)) = Inr (Num (f ! nat i ! nat j))"
proof -
  have l: "length (liftF f) = rows" "length (liftF f ! nat i) = cols"
    using assms by (simp_all add: liftF_def cellsSat_def)
  have i: "i < int rows" "j < int cols" using assms by linarith+
  show ?thesis
    using assms(2,4) i by (simp add: js_read_def js_index_int l liftF_nth [OF assms(1,3,5)])
qed

lemma js_sampleScalar_lift:
  assumes "cellsSat P fld"
  shows "js_sampleScalar (liftF fld) (Num X) (Num Y) = Inr (Num (sampleScalar fld X Y))"
proof -
  have len: "length fld = rows" "length (fld ! 0) = cols"
    using assms rows_pos by (simp_all add: cellsSat_def)
  from len rows_pos obtain r0 rs where fr: "fld = r0 # rs" by (cases fld) auto
  with len have l0: "length r0 = cols" by simp
  have lf: "liftF fld = map Num r0 # liftF rs" by (simp add: liftF_def fr)
  have ll: "length (liftF fld) = rows" by (simp add: liftF_def len)
  define xc where "xc = clamp X 0 (real cols - 1)"
  define yc where "yc = clamp Y 0 (real rows - 1)"
  define x1 where "x1 = clamp (\<lfloor>xc\<rfloor> + 1) 0 (int cols - 1)"
  define y1 where "y1 = clamp (\<lfloor>yc\<rfloor> + 1) 0 (int rows - 1)"
  have xcb: "0 \<le> xc" "xc \<le> real cols - 1"
    using cols_pos by (simp_all add: xc_def clamp_def)
  have ycb: "0 \<le> yc" "yc \<le> real rows - 1"
    using rows_pos by (simp_all add: yc_def clamp_def)
  have x0: "0 \<le> \<lfloor>xc\<rfloor>" "nat \<lfloor>xc\<rfloor> < cols"
    using xcb cols_pos by (simp_all add: nat_less_iff floor_less_iff)
  have y0: "0 \<le> \<lfloor>yc\<rfloor>" "nat \<lfloor>yc\<rfloor> < rows"
    using ycb rows_pos by (simp_all add: nat_less_iff floor_less_iff)
  have x1b: "0 \<le> x1" "nat x1 < cols"
    unfolding x1_def using cols_pos clamped_index [OF cols_pos] by (simp_all add: clamp_def)
  have y1b: "0 \<le> y1" "nat y1 < rows"
    unfolding y1_def using rows_pos clamped_index [OF rows_pos] by (simp_all add: clamp_def)
  have cx1: "clamp (real_of_int \<lfloor>xc\<rfloor> + 1) 0 (real cols - 1) = real_of_int x1"
    by (simp add: x1_def clamp_def of_int_max of_int_min)
  have cy1: "clamp (real_of_int \<lfloor>yc\<rfloor> + 1) 0 (real rows - 1) = real_of_int y1"
    by (simp add: y1_def clamp_def of_int_max of_int_min)
  note rd = js_read_lift [OF assms]
  have js: "js_sampleScalar (liftF fld) (Num X) (Num Y) =
      Inr (Num (lerp
        (lerp (fld ! nat \<lfloor>yc\<rfloor> ! nat \<lfloor>xc\<rfloor>) (fld ! nat \<lfloor>yc\<rfloor> ! nat x1) (xc - real_of_int \<lfloor>xc\<rfloor>))
        (lerp (fld ! nat y1 ! nat \<lfloor>xc\<rfloor>) (fld ! nat y1 ! nat x1) (xc - real_of_int \<lfloor>xc\<rfloor>))
        (yc - real_of_int \<lfloor>yc\<rfloor>)))"
    unfolding js_sampleScalar_def lf list.case
    unfolding lf [symmetric] ll
    by (simp add: Let_def l0 xc_def [symmetric] yc_def [symmetric] cx1 cy1
        rd [OF y0 x0] rd [OF y0 x1b] rd [OF y1b x0] rd [OF y1b x1b])
  have re: "sampleScalar fld X Y =
      lerp
        (lerp (fld ! nat \<lfloor>yc\<rfloor> ! nat \<lfloor>xc\<rfloor>) (fld ! nat \<lfloor>yc\<rfloor> ! nat x1) (xc - real_of_int \<lfloor>xc\<rfloor>))
        (lerp (fld ! nat y1 ! nat \<lfloor>xc\<rfloor>) (fld ! nat y1 ! nat x1) (xc - real_of_int \<lfloor>xc\<rfloor>))
        (yc - real_of_int \<lfloor>yc\<rfloor>)"
    by (simp add: sampleScalar_def Let_def len xc_def yc_def x1_def y1_def)
  show ?thesis by (simp only: js re)
qed

lemma js_advect_lift:
  assumes "cellsSat P f" and "cellsSat Q vx" and "cellsSat R vy"
  shows "js_advect (liftF f) (liftF vx) (liftF vy) = Inr (liftF (advect f vx vy))"
proof -
  have "js_advect (liftF f) (liftF vx) (liftF vy) =
          tabulate2E rows cols (\<lambda>y x. Inr (Num (sampleScalar f
            (real x - vx ! y ! x * ADVECT) (real y - vy ! y ! x * ADVECT))))"
    unfolding js_advect_def Let_def
    by (rule tabulate2E_cong)
      (simp add: liftF_nth [OF assms(2)] liftF_nth [OF assms(3)] js_sampleScalar_lift [OF assms(1)])
  then show ?thesis
    by (simp add: tabulate2E_Inr advect_def Let_def liftF_tabulate2)
qed

lemma js_occupantEmit_lift:
  assumes "width e \<noteq> 0" and "height e \<noteq> 0" and "shapedS s"
  shows "js_occupantEmit e p (liftFields s) = liftFields (occupantEmit e p s)"
    and "shapedS (occupantEmit e p s)"
proof -
  have c: "cellsSat (\<lambda>_. True) (co2 s)" "cellsSat (\<lambda>_. True) (virus s)"
    "cellsSat (\<lambda>_. True) (temp s)"
    using assms(3) by (simp_all add: shapedS_def)
  show "shapedS (occupantEmit e p s)"
    by (simp add: shapedS_def occupantEmit_def Let_def shaped_tabulate2)
  show "js_occupantEmit e p (liftFields s) = liftFields (occupantEmit e p s)"
    unfolding js_occupantEmit_def occupantEmit_def liftFields_def Let_def
      js_fields.simps fields.simps liftF_tabulate2
    by (intro arg_cong3 [where f = "\<lambda>a b c. \<lparr> js_co2 = a, js_virus = b, js_temp = c \<rparr>"]
        tabulate2_cong)
      (simp_all add: js_pxToG assms(1,2) liftF_nth [OF c(1)] liftF_nth [OF c(2)]
        liftF_nth [OF c(3)] algebra_simps)
qed

lemma js_ventWindow_lift:
  assumes "width e \<noteq> 0" and "height e \<noteq> 0" and "shapedS s"
  shows "js_ventWindow e win (liftFields s) = liftFields (ventWindow e win s)"
    and "shapedS (ventWindow e win s)"
proof -
  have c: "cellsSat (\<lambda>_. True) (co2 s)" "cellsSat (\<lambda>_. True) (virus s)"
    "cellsSat (\<lambda>_. True) (temp s)"
    using assms(3) by (simp_all add: shapedS_def)
  show "shapedS (ventWindow e win s)"
    by (simp add: shapedS_def ventWindow_def Let_def shaped_tabulate2)
  show "js_ventWindow e win (liftFields s) = liftFields (ventWindow e win s)"
    unfolding js_ventWindow_def ventWindow_def liftFields_def Let_def
      js_fields.simps fields.simps liftF_tabulate2
    by (intro arg_cong3 [where f = "\<lambda>a b c. \<lparr> js_co2 = a, js_virus = b, js_temp = c \<rparr>"]
        tabulate2_cong)
      (simp_all add: js_ventBand_eq assms(1,2) liftF_nth [OF c(1)] liftF_nth [OF c(2)]
        liftF_nth [OF c(3)])
qed

lemma js_applyOccupants_lift:
  assumes "width e \<noteq> 0" and "height e \<noteq> 0"
  shows "shapedS s \<Longrightarrow>
    foldl (\<lambda>s p. js_occupantEmit e p s) (liftFields s) ps =
      liftFields (foldl (\<lambda>s p. occupantEmit e p s) s ps)
    \<and> shapedS (foldl (\<lambda>s p. occupantEmit e p s) s ps)"
proof (induction ps arbitrary: s)
  case Nil
  then show ?case by simp
next
  case (Cons p ps)
  from Cons.IH [of "occupantEmit e p s"] js_occupantEmit_lift [OF assms Cons.prems, of p]
  show ?case by simp
qed

lemma js_applyVentilation_lift:
  assumes "width e \<noteq> 0" and "height e \<noteq> 0"
  shows "shapedS s \<Longrightarrow>
    foldl (\<lambda>s w. js_ventWindow e w s) (liftFields s) ws =
      liftFields (foldl (\<lambda>s w. ventWindow e w s) s ws)
    \<and> shapedS (foldl (\<lambda>s w. ventWindow e w s) s ws)"
proof (induction ws arbitrary: s)
  case Nil
  then show ?case by simp
next
  case (Cons w ws)
  from Cons.IH [of "ventWindow e w s"] js_ventWindow_lift [OF assms Cons.prems, of w]
  show ?case by simp
qed

lemma js_clampFields_lift:
  assumes "shapedS s"
  shows "js_clampFields e (liftFields s) = liftFields (clampFields e s)"
    and "shapedS (clampFields e s)"
proof -
  have c: "cellsSat (\<lambda>_. True) (co2 s)" "cellsSat (\<lambda>_. True) (virus s)"
    "cellsSat (\<lambda>_. True) (temp s)"
    using assms by (simp_all add: shapedS_def)
  show "shapedS (clampFields e s)"
    by (simp add: shapedS_def clampFields_def shaped_tabulate2)
  show "js_clampFields e (liftFields s) = liftFields (clampFields e s)"
    unfolding js_clampFields_def clampFields_def liftFields_def
      js_fields.simps fields.simps liftF_tabulate2
    by (intro arg_cong3 [where f = "\<lambda>a b c. \<lparr> js_co2 = a, js_virus = b, js_temp = c \<rparr>"]
        tabulate2_cong)
      (simp_all add: liftF_nth [OF c(1)] liftF_nth [OF c(2)] liftF_nth [OF c(3)])
qed

lemma js_initFields_lift:
  "js_initFields e = liftFields (initFields e)" "shapedS (initFields e)"
  by (simp_all add: js_initFields_def initFields_def liftFields_def liftF_make2D shapedS_def
      cellsSat_make2D)

lemma shaped_transport:
  "cellsSat (\<lambda>_. True) (advect f vx vy)" "cellsSat (\<lambda>_. True) (diffuse f)"
  by (simp_all add: advect_def diffuse_def shaped_tabulate2)

lemma js_step_lift:
  assumes "width e \<noteq> 0" and "height e \<noteq> 0" and "shapedS s"
  shows "js_step e (liftFields s) = Inr (liftFields (step e s))"
    and "shapedS (step e s)"
proof -
  have c: "cellsSat (\<lambda>_. True) (co2 s)" "cellsSat (\<lambda>_. True) (virus s)"
    "cellsSat (\<lambda>_. True) (temp s)"
    using assms(3) by (simp_all add: shapedS_def)
  note v = js_computeVelocity_lift [OF assms(1,2)]
  let ?vx = "fst (computeVelocity e)" and ?vy = "snd (computeVelocity e)"
  let ?s2 = "\<lparr> co2 = diffuse (advect (co2 s) ?vx ?vy),
               virus = diffuse (advect (virus s) ?vx ?vy),
               temp = diffuse (advect (temp s) ?vx ?vy) \<rparr>"
  have s2: "shapedS ?s2" by (simp add: shapedS_def shaped_transport)
  have l2: "\<lparr> js_co2 = js_diffuse (liftF (advect (co2 s) ?vx ?vy)),
              js_virus = js_diffuse (liftF (advect (virus s) ?vx ?vy)),
              js_temp = js_diffuse (liftF (advect (temp s) ?vx ?vy)) \<rparr> = liftFields ?s2"
    by (simp add: liftFields_def js_diffuse_lift [OF shaped_transport(1)])
  note o = js_applyOccupants_lift [OF assms(1,2) s2, of "occupants e"]
  note w = js_applyVentilation_lift [OF assms(1,2), of "applyOccupants e ?s2" "windows e"]
  have o': "js_applyOccupants e (liftFields ?s2) = liftFields (applyOccupants e ?s2)"
    "shapedS (applyOccupants e ?s2)"
    using o by (simp_all add: js_applyOccupants_def applyOccupants_def)
  have w': "js_applyVentilation e (liftFields (applyOccupants e ?s2)) =
              liftFields (applyVentilation e (applyOccupants e ?s2))"
    "shapedS (applyVentilation e (applyOccupants e ?s2))"
    using w o'(2) by (simp_all add: js_applyVentilation_def applyVentilation_def)
  note k = js_clampFields_lift [OF w'(2), of e]
  show "shapedS (step e s)"
    unfolding step_is_clamped using k(2) .
  show "js_step e (liftFields s) = Inr (liftFields (step e s))"
    unfolding step_is_clamped
    by (simp add: js_step_def Let_def v(1) liftV_def liftFields_def [of s]
        js_advect_lift [OF c(1) v(2,3)] js_advect_lift [OF c(2) v(2,3)]
        js_advect_lift [OF c(3) v(2,3)] l2 o'(1) w'(1) k(1))
qed

lemma js_runSteps_lift:
  assumes "width e \<noteq> 0" and "height e \<noteq> 0" and "shapedS s"
  shows "js_runSteps e n (liftFields s) = Inr (liftFields (runSteps e n s))
       \<and> shapedS (runSteps e n s)"
proof (induction n)
  case 0
  show ?case using assms(3) by simp
next
  case (Suc n)
  then show ?case
    using js_step_lift [OF assms(1,2), of "runSteps e n s"] by simp
qed

lemma js_accumulate_lift:
  assumes "shapedS s" and "fst yx < rows" and "snd yx < cols"
  shows "js_accumulate (liftFields s) (liftTotals a) yx = liftTotals (accumulate s a yx)"
proof -
  have c: "cellsSat (\<lambda>_. True) (co2 s)" "cellsSat (\<lambda>_. True) (virus s)"
    "cellsSat (\<lambda>_. True) (temp s)"
    using assms(1) by (simp_all add: shapedS_def)
  show ?thesis
    by (simp add: js_accumulate_def accumulate_def liftTotals_def liftFields_def Let_def
        liftF_nth [OF c(1) assms(2,3)] liftF_nth [OF c(2) assms(2,3)]
        liftF_nth [OF c(3) assms(2,3)])
qed

lemma js_accumulate_fold:
  assumes "shapedS s"
  shows "(\<forall>yx \<in> set xs. fst yx < rows \<and> snd yx < cols) \<Longrightarrow>
    foldl (js_accumulate (liftFields s)) (liftTotals a) xs = liftTotals (foldl (accumulate s) a xs)"
  by (induction xs arbitrary: a) (simp_all add: js_accumulate_lift [OF assms])

lemma js_packSums_lift:
  assumes "shapedS s"
  shows "js_packSums (liftFields s) = liftTotals (packSums s)"
proof -
  have z: "\<lparr> js_sumCO2 = Num 0, js_maxCO2 = Num 0, js_sumV = Num 0, js_maxV = Num 0,
            js_sumT = Num 0 \<rparr> =
           liftTotals \<lparr> sumCO2 = 0, maxCO2 = 0, sumV = 0, maxV = 0, sumT = 0 \<rparr>"
    by (simp add: liftTotals_def)
  show ?thesis
    unfolding js_packSums_def packSums_def z
    by (rule js_accumulate_fold [OF assms]) (simp add: cell_indices)
qed

lemma map_map_tabulate2:
  "map (map f) (tabulate2 r c g) = tabulate2 r c (\<lambda>y x. f (g y x))"
  by (simp add: tabulate2_def comp_def)

lemma js_packGrid_lift:
  assumes "shapedS s"
  shows "js_packGrid (liftFields s) = map (map liftCell) (packGrid s)"
proof -
  have c: "cellsSat (\<lambda>_. True) (co2 s)" "cellsSat (\<lambda>_. True) (virus s)"
    "cellsSat (\<lambda>_. True) (temp s)"
    using assms by (simp_all add: shapedS_def)
  show ?thesis
    unfolding js_packGrid_def packGrid_def map_map_tabulate2
    by (rule tabulate2_cong)
      (simp add: liftCell_def liftFields_def liftF_nth [OF c(1)] liftF_nth [OF c(2)]
        liftF_nth [OF c(3)])
qed

lemma js_sampleVectors_lift:
  assumes "cellsSat P (fst v)" and "cellsSat Q (snd v)"
  shows "js_sampleVectors (liftV v) = map liftArrow (sampleVectors v)"
  unfolding js_sampleVectors_def sampleVectors_def map_map
  by (rule map_cong [OF refl])
    (auto simp: liftArrow_def liftV_def liftF_nth [OF assms(1)] liftF_nth [OF assms(2)])

lemma js_simulate_lift:
  assumes "width (mkEnv inp) \<noteq> 0" and "height (mkEnv inp) \<noteq> 0"
  shows "js_simulate inp = Inr (liftResult (simulate inp))"
proof -
  let ?e = "mkEnv inp"
  let ?s = "runSteps ?e STEPS (initFields ?e)"
  note r = js_runSteps_lift [OF assms js_initFields_lift(2), of STEPS]
  note v = js_computeVelocity_lift [OF assms]
  from r have run: "js_runSteps ?e STEPS (js_initFields ?e) = Inr (liftFields ?s)"
    and sh: "shapedS ?s"
    by (simp_all add: js_initFields_lift(1))
  have n: "real (rows * cols) \<noteq> 0" using rows_pos cols_pos by simp
  show ?thesis
    unfolding js_simulate_def simulate_def Let_def run thenE_Inr
      js_packSums_lift [OF sh] js_packGrid_lift [OF sh] v(1) js_sampleVectors_lift [OF v(2,3)]
    using n by (simp add: liftResult_def liftStats_def liftTotals_def del: of_nat_mult)
qed

lemma js_scoreOf_lift: "js_scoreOf (liftStats s) = Num (scoreOf s)"
  by (simp add: js_scoreOf_def scoreOf_def liftStats_def Let_def)

lemma trial_dims:
  "width (mkEnv (trialInput rnd inp i)) = optWidth inp"
  "height (mkEnv (trialInput rnd inp i)) = optHeight inp"
  by (simp_all add: mkEnv_def trialInput_def)

lemma js_tryFan_lift:
  assumes "optWidth inp \<noteq> 0" and "optHeight inp \<noteq> 0"
  shows "js_tryFan rnd inp (liftSearch b) i = Inr (liftSearch (tryFan rnd inp b i))"
proof -
  have s: "js_simulate (trialInput rnd inp i) = Inr (liftResult (simulate (trialInput rnd inp i)))"
    by (rule js_simulate_lift) (simp_all add: trial_dims assms)
  have lt: "js_lt (Num sc) (js_bestScore (liftSearch b)) = belowBest sc (bestScore b)" for sc
    by (cases "bestScore b") (simp_all add: liftSearch_def)
  show ?thesis
    by (simp add: js_tryFan_def tryFan_def s Let_def liftResult_def js_scoreOf_lift lt
        trialStats_def)
      (simp add: liftSearch_def)
qed

lemma js_search_fold:
  assumes "optWidth inp \<noteq> 0" and "optHeight inp \<noteq> 0"
  shows "foldl (\<lambda>m i. thenE m (\<lambda>b. js_tryFan rnd inp b i)) (Inr (liftSearch b)) is =
           Inr (liftSearch (foldl (tryFan rnd inp) b is))"
  by (induction "is" arbitrary: b) (simp_all add: js_tryFan_lift [OF assms])

lemma js_optimizeFan_lift:
  assumes "optWidth inp \<noteq> 0" and "optHeight inp \<noteq> 0"
  shows "js_optimizeFan rnd inp = Inr (liftOpt (optimizeFan rnd inp))"
proof -
  let ?b0 = "\<lparr> best = \<lparr> fan_x = Some (optWidth inp / 2), fan_y = Some (optHeight inp / 2),
                          fan_strength = Num 1.0 \<rparr>,
                bestScore = None, bestStats = None \<rparr>"
  have z: "\<lparr> js_best = \<lparr> fan_x = Some (optWidth inp / 2), fan_y = Some (optHeight inp / 2),
                           fan_strength = Num 1.0 \<rparr>,
               js_bestScore = PosInfinity, js_bestStats = None \<rparr> = liftSearch ?b0"
    by (simp add: liftSearch_def)
  have s: "js_searchFan rnd inp = Inr (liftSearch (searchFan rnd inp))"
    unfolding js_searchFan_def searchFan_def z by (rule js_search_fold [OF assms])
  show ?thesis
    by (cases "bestScore (searchFan rnd inp)")
      (simp_all add: js_optimizeFan_def optimizeFan_def s liftOpt_def liftSearch_def Let_def)
qed

section \<open>Where the simulation throws\<close>

lemma sequenceE_error:
  "Inl e \<in> set ms \<Longrightarrow> \<exists>e'. sequenceE ms = Inl e'"
proof (induction ms)
  case Nil
  then show ?case by simp
next
  case (Cons m ms)
  show ?case
  proof (cases m)
    case (Inl a)
    then show ?thesis by simp
  next
    case (Inr b)
    with Cons.prems have "Inl e \<in> set ms" by simp
    from Cons.IH [OF this] obtain e' where "sequenceE ms = Inl e'" ..
    with Inr have "sequenceE (m # ms) = Inl e'" by simp
    then show ?thesis ..
  qed
qed

lemma tabulate2E_error:
  assumes "y < r" and "x < c" and "g y x = Inl TypeError"
  shows "tabulate2E r c g = Inl TypeError"
proof -
  have "g y x \<in> set (map (g y) [0..<c])"
    using assms(2) by simp
  then have "Inl TypeError \<in> set (map (g y) [0..<c])"
    by (simp only: assms(3))
  from sequenceE_error [OF this] obtain e where e: "sequenceE (map (g y) [0..<c]) = Inl e" ..
  have "sequenceE (map (g y) [0..<c]) \<in> set (map (\<lambda>y. sequenceE (map (g y) [0..<c])) [0..<r])"
    using assms(1) by simp
  then have "Inl e \<in> set (map (\<lambda>y. sequenceE (map (g y) [0..<c])) [0..<r])"
    by (simp only: e)
  from sequenceE_error [OF this] obtain e' where "tabulate2E r c g = Inl e'"
    unfolding tabulate2E_def ..
  then show ?thesis by (cases e') simp
qed

lemma js_sampleScalar_NaN: "js_sampleScalar fld X NaN = Inl TypeError"
  by (cases fld)
    (simp_all add: js_sampleScalar_def Let_def js_clamp_def js_min_def js_max_def js_read_def
      js_index_def)

lemma js_advect_NaN:
  assumes "vy ! 0 ! 0 = NaN"
  shows "js_advect fld vx vy = Inl TypeError"
  unfolding js_advect_def
  by (rule tabulate2E_error [OF rows_pos cols_pos])
    (simp add: Let_def assms js_sub_def js_sampleScalar_NaN)

lemma js_step_NaN:
  assumes "snd (js_computeVelocity e) ! 0 ! 0 = NaN"
  shows "js_step e s = Inl TypeError"
  by (simp add: js_step_def Let_def js_advect_NaN [OF assms])

lemma js_runSteps_NaN:
  assumes "snd (js_computeVelocity e) ! 0 ! 0 = NaN"
  shows "js_runSteps e (Suc n) s = Inl TypeError"
  by (induction n) (simp_all add: js_step_NaN [OF assms])

lemma js_simulate_NaN:
  assumes "snd (js_computeVelocity (mkEnv inp)) ! 0 ! 0 = NaN"
  shows "js_simulate inp = Inl TypeError"
proof -
  have st: "STEPS = Suc 39" by (simp add: STEPS_def)
  show ?thesis
    unfolding js_simulate_def Let_def st js_runSteps_NaN [OF assms] by simp
qed

lemma one_fan_velocity:
  assumes "fans e = [f]" and "windows e = []"
  shows "snd (js_computeVelocity e) ! 0 ! 0 =
    (let dx = js_sub (Num 0) (js_pxToGX e (orZero (fan_x f)));
         dy = js_sub (Num 0) (js_pxToGY e (orZero (fan_y f)));
         d2 = js_add (js_add (js_mul dx dx) (js_mul dy dy)) (Num 6)
     in js_add (Num 0)
          (js_mul (js_mul (js_div dy d2) (Num FAN_STRENGTH))
             (Num (if isFinite (fan_strength f) then num (fan_strength f) else 1))))"
  using rows_pos cols_pos
  by (simp add: js_computeVelocity_def assms js_fanPush_def Let_def tabulate2_nth make2D_nth)

lemma foldl_thenE_Inl: "foldl (\<lambda>m i. thenE m (f i)) (Inl e) xs = Inl e"
  by (induction xs) simp_all

lemma zero_height_velocity:
  assumes "fans e = [f]" and "windows e = []" and "width e \<noteq> 0" and "height e = 0"
  shows "snd (js_computeVelocity e) ! 0 ! 0 = NaN"
proof -
  define py where "py = orZero (fan_y f)"
  have fx: "js_pxToGX e (orZero (fan_x f)) = Num (pxToGX e (orZero (fan_x f)))"
    using assms(3) by (rule js_pxToG)
  have r: "real rows - 1 = 27" by (simp add: rows_def)
  have fy: "js_pxToGY e py = (if py = 0 then NaN else if 0 < py then PosInfinity else NegInfinity)"
    by (simp add: js_pxToGY_def assms(4) r)
  show ?thesis
    unfolding one_fan_velocity [OF assms(1,2)] fx py_def [symmetric] fy
    by (simp add: Let_def js_sub_def)
qed

text \<open>
  C9 as the claim words it fails. An input with no width, height 0 and one fan at
  \<open>(10, 10)\<close> has a width that is not finite, and the width becomes 800; but the
  fan's grid row is \<open>10 / 0 * 27\<close>, an infinity, the y velocity at the cell
  \<open>(0, 0)\<close> is an infinity over an infinity, NaN, and the first advection reads
  \<^verbatim>\<open>field[NaN][x0]\<close>: the simulation ends with a TypeError, and so does the
  optimizer at its first trial.
\<close>

theorem zero_height_throws:
  "\<not> isFinite (in_width (fanInput Undefined (Num 0)))
   \<and> js_simulate (fanInput Undefined (Num 0)) = Inl TypeError
   \<and> js_optimizeFan (\<lambda>i. 1 / 2) (fanInput Undefined (Num 0)) = Inl TypeError"
proof -
  let ?inp = "fanInput Undefined (Num 0)"
  let ?rnd = "\<lambda>i::nat. 1 / 2 :: real"
  have e: "fans (mkEnv ?inp) = [\<lparr> fan_x = Some 10, fan_y = Some 10, fan_strength = Undefined \<rparr>]"
    "windows (mkEnv ?inp) = []" "width (mkEnv ?inp) \<noteq> 0" "height (mkEnv ?inp) = 0"
    by (simp_all add: mkEnv_def fanInput_def)
  have sim: "js_simulate ?inp = Inl TypeError"
    by (rule js_simulate_NaN, rule zero_height_velocity [OF e])
  let ?t = "trialInput ?rnd ?inp 0"
  have t: "fans (mkEnv ?t) = [trialFan ?rnd ?inp 0]" "windows (mkEnv ?t) = []"
    "width (mkEnv ?t) \<noteq> 0" "height (mkEnv ?t) = 0"
    by (simp_all add: mkEnv_def trialInput_def fanInput_def optWidth_def optHeight_def)
  have "js_simulate ?t = Inl TypeError"
    by (rule js_simulate_NaN, rule zero_height_velocity [OF t])
  then have first: "js_tryFan ?rnd ?inp b 0 = Inl TypeError" for b
    by (simp add: js_tryFan_def Let_def)
  have "[0..<TRIES] = 0 # [Suc 0..<TRIES]"
    by (rule upt_conv_Cons) (simp add: TRIES_def)
  then have "js_searchFan ?rnd ?inp = Inl TypeError"
    unfolding js_searchFan_def by (simp only: foldl.simps thenE_Inr first foldl_thenE_Inl)
  then have "js_optimizeFan ?rnd ?inp = Inl TypeError"
    by (simp add: js_optimizeFan_def)
  moreover have "\<not> isFinite (in_width ?inp)" by (simp add: fanInput_def)
  ultimately show ?thesis using sim by blast
qed

section \<open>Missing dimensions\<close>

lemma opt_dims: "optWidth inp = width (mkEnv inp)" "optHeight inp = height (mkEnv inp)"
  by (simp_all add: optWidth_def optHeight_def mkEnv_def)

text \<open>
  C9, as the code has it. Where the width of the input is absent or not finite, the width
  in use is 800, and the simulation and the optimizer behave as on the same input with
  width 800; where the height is, the height in use is 500, and they behave as on the
  same input with height 500. They complete normally, returning what the simulation over
  the reals returns, when with the dimensions so replaced the room has positive width and
  height and every fan, window and occupant is at a point of it (the optimizer's random
  numbers lying in \<open>[0, 1)\<close>).
\<close>

theorem nonfinite_dimensions_defaulted:
  "(\<not> isFinite (in_width inp) \<longrightarrow>
      width (mkEnv inp) = 800 \<and> optWidth inp = 800
    \<and> js_simulate inp = js_simulate (inp\<lparr>in_width := Num 800\<rparr>)
    \<and> js_optimizeFan rnd inp = js_optimizeFan rnd (inp\<lparr>in_width := Num 800\<rparr>))
   \<and> (\<not> isFinite (in_height inp) \<longrightarrow>
      height (mkEnv inp) = 500 \<and> optHeight inp = 500
    \<and> js_simulate inp = js_simulate (inp\<lparr>in_height := Num 500\<rparr>)
    \<and> js_optimizeFan rnd inp = js_optimizeFan rnd (inp\<lparr>in_height := Num 500\<rparr>))
   \<and> ((\<not> isFinite (in_width inp) \<or> \<not> isFinite (in_height inp))
        \<and> withinRoom (mkEnv inp) \<and> (\<forall>i. 0 \<le> rnd i \<and> rnd i < 1) \<longrightarrow>
      js_simulate inp = Inr (liftResult (simulate inp))
    \<and> js_optimizeFan rnd inp = Inr (liftOpt (optimizeFan rnd inp)))"
proof (intro conjI impI)
  assume n: "\<not> isFinite (in_width inp)"
  show "width (mkEnv inp) = 800" "optWidth inp = 800"
    using n by (simp_all add: mkEnv_def optWidth_def)
  have e: "mkEnv (inp\<lparr>in_width := Num 800\<rparr>) = mkEnv inp"
    using n by (simp add: mkEnv_def)
  show "js_simulate inp = js_simulate (inp\<lparr>in_width := Num 800\<rparr>)"
    by (simp add: js_simulate_def e)
  have f: "trialFan rnd (inp\<lparr>in_width := Num 800\<rparr>) i = trialFan rnd inp i" for i
    using n by (simp add: trialFan_def optWidth_def optHeight_def)
  have i: "trialInput rnd (inp\<lparr>in_width := Num 800\<rparr>) i = trialInput rnd inp i" for i
    using n by (simp add: trialInput_def f optWidth_def optHeight_def)
  have t: "js_tryFan rnd (inp\<lparr>in_width := Num 800\<rparr>) = js_tryFan rnd inp"
    by (intro ext) (simp add: js_tryFan_def f i)
  show "js_optimizeFan rnd inp = js_optimizeFan rnd (inp\<lparr>in_width := Num 800\<rparr>)"
    using n by (simp add: js_optimizeFan_def js_searchFan_def t optWidth_def optHeight_def)
next
  assume n: "\<not> isFinite (in_height inp)"
  show "height (mkEnv inp) = 500" "optHeight inp = 500"
    using n by (simp_all add: mkEnv_def optHeight_def)
  have e: "mkEnv (inp\<lparr>in_height := Num 500\<rparr>) = mkEnv inp"
    using n by (simp add: mkEnv_def)
  show "js_simulate inp = js_simulate (inp\<lparr>in_height := Num 500\<rparr>)"
    by (simp add: js_simulate_def e)
  have f: "trialFan rnd (inp\<lparr>in_height := Num 500\<rparr>) i = trialFan rnd inp i" for i
    using n by (simp add: trialFan_def optWidth_def optHeight_def)
  have i: "trialInput rnd (inp\<lparr>in_height := Num 500\<rparr>) i = trialInput rnd inp i" for i
    using n by (simp add: trialInput_def f optWidth_def optHeight_def)
  have t: "js_tryFan rnd (inp\<lparr>in_height := Num 500\<rparr>) = js_tryFan rnd inp"
    by (intro ext) (simp add: js_tryFan_def f i)
  show "js_optimizeFan rnd inp = js_optimizeFan rnd (inp\<lparr>in_height := Num 500\<rparr>)"
    using n by (simp add: js_optimizeFan_def js_searchFan_def t optWidth_def optHeight_def)
next
  assume a: "(\<not> isFinite (in_width inp) \<or> \<not> isFinite (in_height inp))
        \<and> withinRoom (mkEnv inp) \<and> (\<forall>i. 0 \<le> rnd i \<and> rnd i < 1)"
  then have d: "width (mkEnv inp) \<noteq> 0" "height (mkEnv inp) \<noteq> 0"
    by (simp_all add: withinRoom_def)
  show "js_simulate inp = Inr (liftResult (simulate inp))"
    using d by (rule js_simulate_lift)
  show "js_optimizeFan rnd inp = Inr (liftOpt (optimizeFan rnd inp))"
    by (rule js_optimizeFan_lift) (simp_all add: opt_dims d)
qed

text \<open>A room with a fan, a window and an occupant, one dimension missing at a time.\<close>

theorem nonfinite_dimensions_witness:
  "\<not> isFinite (in_width (busyInput Undefined (Num 400)))
   \<and> withinRoom (mkEnv (busyInput Undefined (Num 400)))
   \<and> width (mkEnv (busyInput Undefined (Num 400))) = 800
   \<and> js_simulate (busyInput Undefined (Num 400)) =
       js_simulate ((busyInput Undefined (Num 400))\<lparr>in_width := Num 800\<rparr>)
   \<and> js_simulate (busyInput Undefined (Num 400)) =
       Inr (liftResult (simulate (busyInput Undefined (Num 400))))
   \<and> js_optimizeFan (\<lambda>i. 1 / 2) (busyInput Undefined (Num 400)) =
       Inr (liftOpt (optimizeFan (\<lambda>i. 1 / 2) (busyInput Undefined (Num 400))))
   \<and> \<not> isFinite (in_height (busyInput (Num 640) PosInfinity))
   \<and> withinRoom (mkEnv (busyInput (Num 640) PosInfinity))
   \<and> height (mkEnv (busyInput (Num 640) PosInfinity)) = 500
   \<and> js_simulate (busyInput (Num 640) PosInfinity) =
       Inr (liftResult (simulate (busyInput (Num 640) PosInfinity)))"
proof -
  let ?a = "busyInput Undefined (Num 400)"
  let ?b = "busyInput (Num 640) PosInfinity"
  let ?rnd = "\<lambda>i::nat. 1 / 2 :: real"
  have a: "\<not> isFinite (in_width ?a)" "withinRoom (mkEnv ?a)"
    by (simp_all add: busyInput_def withinRoom_def inside_def mkEnv_def)
  have b: "\<not> isFinite (in_height ?b)" "withinRoom (mkEnv ?b)"
    by (simp_all add: busyInput_def withinRoom_def inside_def mkEnv_def)
  have r: "\<forall>i. 0 \<le> ?rnd i \<and> ?rnd i < 1" by simp
  from nonfinite_dimensions_defaulted [where inp = ?a and rnd = ?rnd] a r
  have "width (mkEnv ?a) = 800"
    "js_simulate ?a = js_simulate (?a\<lparr>in_width := Num 800\<rparr>)"
    "js_simulate ?a = Inr (liftResult (simulate ?a))"
    "js_optimizeFan ?rnd ?a = Inr (liftOpt (optimizeFan ?rnd ?a))"
    by blast+
  moreover
  from nonfinite_dimensions_defaulted [where inp = ?b and rnd = ?rnd] b r
  have "height (mkEnv ?b) = 500" "js_simulate ?b = Inr (liftResult (simulate ?b))"
    by blast+
  ultimately show ?thesis using a b by blast
qed

end
